theory Spec2Isabelle
  imports Complex_Main "HOL-Library.List_Lexorder" "HOL-Library.Char_ord"
begin

section \<open>Data model\<close>

text \<open>
  A DataFrame of \<^verbatim>\<open>pandas/core/frame.py\<close> owns a row index, a column index and one typed
  buffer per column. The column index and the buffers are kept together as an association
  list in column order, so duplicate column labels and their order are preserved and the
  number of buffers always equals the number of column labels.

  A cell is a missing value \<open>NA\<close> (None / NaN), a boolean, a number or a text. Numbers
  carry their value as a rational; whether a column stores them as integers or as floats is
  the column's \<open>dtype\<close>. Converting a numeric column between \<open>Int64\<close> and
  \<open>Float64\<close> therefore leaves the cells as they are and changes the dtype only.

  The column axis is a flat Index: MultiIndex columns (the \<^verbatim>\<open>nlevels > 1\<close> branches of
  \<^verbatim>\<open>__getitem__\<close> and \<^verbatim>\<open>_getitem_multilevel\<close>) are outside this model.
\<close>

datatype dtype = BoolT | Int64 | Float64 | ObjectT

datatype cell = NA | Flag bool | Num rat | Text string

record column =
  dtype :: dtype
  vals :: "cell list"

record ('r, 'c) series =
  name :: 'c
  sindex :: "'r list"
  scol :: column

record ('r, 'c) frame =
  index :: "'r list"
  data :: "('c \<times> column) list"

definition columns :: "('r, 'c) frame \<Rightarrow> 'c list" where
  "columns f = map fst (data f)"

text \<open>\<^verbatim>\<open>NDFrame.empty\<close>: true when either axis has length 0.\<close>

definition empty :: "('r, 'c) frame \<Rightarrow> bool" where
  "empty f = (index f = [] \<or> data f = [])"

text \<open>The exceptions raised by the modelled functions, as values.\<close>

datatype error =
    NotImplementedError
  | BadErrorsArgument
  | DataOverlap
  | LengthMismatch
  | UnalignableBooleanKey
  | InvalidBooleanFrame
  | KeyError
  | AmbiguousAlignment
  | AttributeError
  | TwoDimensionalValues
  | ValuesLengthMismatch
  | ShapeMismatch
  | CastError
  | FuncError

text \<open>\<^verbatim>\<open>isna\<close> and \<^verbatim>\<open>notna\<close> of \<^verbatim>\<open>pandas.core.dtypes.missing\<close>, element by element.\<close>

definition isna :: "cell \<Rightarrow> bool" where
  "isna c = (c = NA)"

definition notna :: "cell \<Rightarrow> bool" where
  "notna c = (c \<noteq> NA)"

text \<open>
  numpy combines one-dimensional arrays by broadcasting: two lengths go together when they
  are equal or one of them is 1, and an array of length 1 is repeated to the other length.
  \<open>bget xs i\<close> reads position \<open>i\<close> of an array that may have been repeated. Any other
  pair of lengths raises ("operands could not be broadcast together").
\<close>

definition broadcast_len :: "nat \<Rightarrow> nat \<Rightarrow> nat option" where
  "broadcast_len m n =
     (if m = n then Some n else if m = 1 then Some n else if n = 1 then Some m else None)"

definition bget :: "'a list \<Rightarrow> nat \<Rightarrow> 'a" where
  "bget xs i = (if length xs = 1 then xs ! 0 else xs ! i)"

text \<open>numpy's \<^verbatim>\<open>a | b\<close> on two boolean arrays.\<close>

definition np_or :: "bool list \<Rightarrow> bool list \<Rightarrow> error + bool list" where
  "np_or xs ys =
     (case broadcast_len (length xs) (length ys) of
        None \<Rightarrow> Inl ShapeMismatch
      | Some n \<Rightarrow> Inr (map (\<lambda>i. bget xs i \<or> bget ys i) [0..<n]))"

text \<open>
  \<^verbatim>\<open>expressions.where(mask, a, b)\<close> is numpy's \<^verbatim>\<open>where\<close>: the three arrays are broadcast
  together, and position by position the result has the element of \<open>a\<close> where the mask
  is true and the element of \<open>b\<close> where it is false.
\<close>

definition np_where :: "bool list \<Rightarrow> 'a list \<Rightarrow> 'a list \<Rightarrow> error + 'a list" where
  "np_where msk a b =
     (case broadcast_len (length a) (length b) of
        None \<Rightarrow> Inl ShapeMismatch
      | Some k \<Rightarrow>
          (case broadcast_len (length msk) k of
             None \<Rightarrow> Inl ShapeMismatch
           | Some n \<Rightarrow> Inr (map (\<lambda>i. if bget msk i then bget a i else bget b i) [0..<n])))"

text \<open>Python's \<^verbatim>\<open>any(xs)\<close> and numpy's \<^verbatim>\<open>xs.all()\<close> on a boolean array.\<close>

definition py_any :: "bool list \<Rightarrow> bool" where
  "py_any xs = list_ex (\<lambda>b. b) xs"

definition np_all :: "bool list \<Rightarrow> bool" where
  "np_all xs = list_all (\<lambda>b. b) xs"

section \<open>LabelIndex\<close>

text \<open>
  Modelled from the spec: \<^verbatim>\<open>Index.get_loc\<close> is defined outside frame.py. The spec's
  contract: it fails with KeyNotFound if the label is absent, returns the single position
  of a label that occurs once, and all matching positions of a label that repeats.
\<close>

datatype loc = Pos nat | PosSet "nat list"

definition positions :: "'a list \<Rightarrow> 'a \<Rightarrow> nat list" where
  "positions xs k = filter (\<lambda>i. xs ! i = k) [0..<length xs]"

definition get_loc :: "'a list \<Rightarrow> 'a \<Rightarrow> error + loc" where
  "get_loc xs k =
     (case positions xs k of
        [] \<Rightarrow> Inl KeyError
      | [i] \<Rightarrow> Inr (Pos i)
      | ps \<Rightarrow> Inr (PosSet ps))"

text \<open>
  Modelled from the spec: \<^verbatim>\<open>Index.get_indexer\<close> is defined outside frame.py. The spec's
  contract: for each target label its position in the index, or \<open>-1\<close> if absent. For a
  label that repeats in the index the position is that of its first occurrence.
\<close>

fun first_pos :: "'a list \<Rightarrow> 'a \<Rightarrow> int" where
  "first_pos [] k = -1"
| "first_pos (x # xs) k =
     (if x = k then 0 else (let p = first_pos xs k in if p < 0 then -1 else p + 1))"

definition get_indexer :: "'a list \<Rightarrow> 'a list \<Rightarrow> int list" where
  "get_indexer xs target = map (first_pos xs) target"

section \<open>ColumnStore\<close>

text \<open>
  Modelled from the spec: the column store's \<^verbatim>\<open>take(indexer)\<close> is a positional gather in
  which \<open>-1\<close> means "fill with NA". A column widened by such a fill gets the narrowest
  dtype of the promotion order that can hold a missing value.
\<close>

definition take_fill :: "cell list \<Rightarrow> int list \<Rightarrow> cell list" where
  "take_fill xs ixs = map (\<lambda>i. if 0 \<le> i \<and> nat i < length xs then xs ! nat i else NA) ixs"

definition promote_na :: "dtype \<Rightarrow> dtype" where
  "promote_na d = (case d of Int64 \<Rightarrow> Float64 | BoolT \<Rightarrow> ObjectT | Float64 \<Rightarrow> Float64 | ObjectT \<Rightarrow> ObjectT)"

definition take_col :: "column \<Rightarrow> int list \<Rightarrow> column" where
  "take_col c ixs =
     \<lparr>dtype = (if list_ex (\<lambda>i. i < 0) ixs then promote_na (dtype c) else dtype c),
      vals = take_fill (vals c) ixs\<rparr>"

text \<open>Positional gathers without fill: \<^verbatim>\<open>_take(indexer, axis)\<close> with positions in range.\<close>

definition take_pos :: "'a list \<Rightarrow> nat list \<Rightarrow> 'a list" where
  "take_pos xs ps = map (\<lambda>p. xs ! p) ps"

definition take_rows :: "('r, 'c) frame \<Rightarrow> nat list \<Rightarrow> ('r, 'c) frame" where
  "take_rows f ps =
     \<lparr>index = take_pos (index f) ps,
      data = map (\<lambda>(c, col). (c, col\<lparr>vals := take_pos (vals col) ps\<rparr>)) (data f)\<rparr>"

definition take_columns :: "('r, 'c) frame \<Rightarrow> nat list \<Rightarrow> ('r, 'c) frame" where
  "take_columns f ps = \<lparr>index = index f, data = take_pos (data f) ps\<rparr>"

section \<open>Type promotion\<close>

text \<open>
  Modelled from the spec: \<^verbatim>\<open>find_common_type\<close> of \<^verbatim>\<open>pandas.core.dtypes.cast\<close> is defined
  outside frame.py. The spec's rule: the wider numeric type wins, and the presence of a
  non-numeric type forces the object type. Two equal types need no promotion (the source:
  "if we have different dtypes, possibly promote").
\<close>

definition is_numeric :: "dtype \<Rightarrow> bool" where
  "is_numeric d = (d = Int64 \<or> d = Float64)"

definition common2 :: "dtype \<Rightarrow> dtype \<Rightarrow> dtype" where
  "common2 a b =
     (if a = b then a
      else if is_numeric a \<and> is_numeric b then Float64
      else ObjectT)"

definition find_common_type :: "dtype list \<Rightarrow> dtype" where
  "find_common_type ds = (case ds of [] \<Rightarrow> Float64 | d # rest \<Rightarrow> foldl common2 d rest)"

text \<open>
  \<^verbatim>\<open>key.values\<close> of a frame is one two-dimensional array; its dtype is the common type of
  the columns, and its \<^verbatim>\<open>size\<close> the number of rows times the number of columns.
\<close>

definition values_dtype :: "('r, 'c) frame \<Rightarrow> dtype" where
  "values_dtype f = find_common_type (map (\<lambda>(c, col). dtype col) (data f))"

definition values_size :: "('r, 'c) frame \<Rightarrow> nat" where
  "values_size f = length (index f) * length (data f)"

definition is_bool_dtype :: "dtype \<Rightarrow> bool" where
  "is_bool_dtype d = (d = BoolT)"

section \<open>Selection: \<^verbatim>\<open>DataFrame.__getitem__\<close>\<close>

text \<open>
  The key is a closed variant: a single label, an integer row slice \<^verbatim>\<open>lo:hi\<close>, a frame,
  a boolean array, a boolean Series (which carries its own label index), or a list of
  labels. The result is a single column (a Series), a frame, or the value of
  \<^verbatim>\<open>self.where(key)\<close>: \<^verbatim>\<open>NDFrame.where\<close> is defined outside frame.py and is not
  described by the spec, so the call is kept as the term \<open>Where self key\<close>. Callable
  keys, and the lookup of a date string as a row slice on a datetime row index (in
  \<^verbatim>\<open>convert_to_index_sliceable\<close>), are not part of the key type.
\<close>

datatype ('r, 'c) key =
    KLabel 'c
  | KSlice nat nat
  | KFrame "('r, 'c) frame"
  | KBoolArray "bool list"
  | KBoolSeries "'r list" "bool list"
  | KList "'c list"

datatype ('r, 'c) item =
    Column "('r, 'c) series"
  | Frame "('r, 'c) frame"
  | Where "('r, 'c) frame" "('r, 'c) frame"

text \<open>
  \<^verbatim>\<open>_get_item_cache(key)\<close> boxes the buffer stored under the label as a Series named by the
  key on the frame's row index; a label that is not stored is a KeyError.
\<close>

definition get_item_cache :: "('r, 'c) frame \<Rightarrow> 'c \<Rightarrow> error + ('r, 'c) item" where
  "get_item_cache f k =
     (case map_of (data f) k of
        None \<Rightarrow> Inl KeyError
      | Some col \<Rightarrow> Inr (Column \<lparr>name = k, sindex = index f, scol = col\<rparr>))"

text \<open>\<^verbatim>\<open>_slice(indexer, axis=0)\<close> for the integer slice \<^verbatim>\<open>lo:hi\<close>.\<close>

definition slice_rows :: "('r, 'c) frame \<Rightarrow> nat \<Rightarrow> nat \<Rightarrow> ('r, 'c) frame" where
  "slice_rows f lo hi = take_rows f [lo..<min hi (length (index f))]"

text \<open>
  \<^verbatim>\<open>_getitem_frame\<close>: the boolean-only check is made only when the selector has at least
  one element.
\<close>

definition getitem_frame :: "('r, 'c) frame \<Rightarrow> ('r, 'c) frame \<Rightarrow> error + ('r, 'c) item" where
  "getitem_frame f k =
     (if values_size k \<noteq> 0 \<and> \<not> is_bool_dtype (values_dtype k) then Inl InvalidBooleanFrame
      else Inr (Where f k))"

text \<open>
  Modelled from the spec: \<^verbatim>\<open>check_bool_indexer\<close> of \<^verbatim>\<open>pandas.core.indexing\<close> is defined
  outside frame.py. The spec's rule: a key that carries its own label index is first
  reindexed to the axis index, and labels that do not match raise UnalignableBooleanKey.
  A key without an index, or with the axis index itself, is used as it is.
\<close>

definition check_bool_indexer :: "'r list \<Rightarrow> 'r list option \<Rightarrow> bool list \<Rightarrow> error + bool list" where
  "check_bool_indexer ax kidx kv =
     (case kidx of
        None \<Rightarrow> Inr kv
      | Some ki \<Rightarrow>
          if ki = ax then Inr kv
          else (let ixs = get_indexer ki ax in
                if list_ex (\<lambda>i. i < 0 \<or> length kv \<le> nat i) ixs then Inl UnalignableBooleanKey
                else Inr (map (\<lambda>i. kv ! nat i) ixs)))"

text \<open>numpy's \<^verbatim>\<open>key.nonzero()[0]\<close>: the positions that hold true, ascending.\<close>

definition nonzero :: "bool list \<Rightarrow> nat list" where
  "nonzero bs = filter (\<lambda>i. bs ! i) [0..<length bs]"

text \<open>
  \<^verbatim>\<open>_getitem_bool_array\<close>. A Series key whose index differs from the frame's is only warned
  about and left to \<^verbatim>\<open>check_bool_indexer\<close>; any other key of the wrong length raises.
\<close>

definition getitem_bool_array ::
  "('r, 'c) frame \<Rightarrow> 'r list option \<Rightarrow> bool list \<Rightarrow> error + ('r, 'c) frame" where
  "getitem_bool_array f kidx kv =
     (if (kidx = None \<or> kidx = Some (index f)) \<and> length kv \<noteq> length (index f)
      then Inl LengthMismatch
      else (case check_bool_indexer (index f) kidx kv of
              Inl e \<Rightarrow> Inl e
            | Inr k \<Rightarrow> Inr (take_rows f (nonzero k))))"

text \<open>
  Modelled from the spec: \<^verbatim>\<open>_convert_to_indexer(key, axis=1, raise_missing=True)\<close> is
  defined outside frame.py. The spec's rule for a list of labels: \<^verbatim>\<open>get_indexer\<close>, and any
  \<open>-1\<close> fails with KeyError.
\<close>

definition convert_to_indexer :: "'c list \<Rightarrow> 'c list \<Rightarrow> error + nat list" where
  "convert_to_indexer cols ks =
     (let ixs = get_indexer cols ks in
      if list_ex (\<lambda>i. i < 0) ixs then Inl KeyError else Inr (map nat ixs))"

text \<open>
  \<^verbatim>\<open>__getitem__\<close>, in the source's order: the shortcut for a label of a unique column
  index; the row slice; the frame selector; the boolean indexer; then a single key
  (\<^verbatim>\<open>get_loc\<close>, a take on the columns, and the column itself when exactly one column was
  taken: \<^verbatim>\<open>data = data[key]\<close> on the one-column frame goes through the shortcut) or a list
  of keys.
\<close>

definition getitem :: "('r, 'c) frame \<Rightarrow> ('r, 'c) key \<Rightarrow> error + ('r, 'c) item" where
  "getitem f key =
     (case key of
        KLabel k \<Rightarrow>
          if distinct (columns f) \<and> k \<in> set (columns f) then get_item_cache f k
          else (case get_loc (columns f) k of
                  Inl e \<Rightarrow> Inl e
                | Inr l \<Rightarrow>
                    (let indexer = (case l of Pos i \<Rightarrow> [i] | PosSet ps \<Rightarrow> ps);
                         d = take_columns f indexer
                     in if length (data d) = 1 then get_item_cache d k else Inr (Frame d)))
      | KSlice lo hi \<Rightarrow> Inr (Frame (slice_rows f lo hi))
      | KFrame k \<Rightarrow> getitem_frame f k
      | KBoolArray kv \<Rightarrow>
          (case getitem_bool_array f None kv of Inl e \<Rightarrow> Inl e | Inr r \<Rightarrow> Inr (Frame r))
      | KBoolSeries ki kv \<Rightarrow>
          (case getitem_bool_array f (Some ki) kv of Inl e \<Rightarrow> Inl e | Inr r \<Rightarrow> Inr (Frame r))
      | KList ks \<Rightarrow>
          (case convert_to_indexer (columns f) ks of
             Inl e \<Rightarrow> Inl e
           | Inr ps \<Rightarrow> Inr (Frame (take_columns f ps))))"

section \<open>Reindexing\<close>

text \<open>
  Modelled from the spec: \<^verbatim>\<open>reindex\<close> and \<^verbatim>\<open>reindex_like\<close> are defined outside frame.py.
  The spec's rule: each axis is reindexed onto the target index by \<^verbatim>\<open>get_indexer\<close>
  (missing entries are \<open>-1\<close> and are filled with NA, not dropped), one axis after the
  other; an axis whose index already equals the target is a no-op (the fast path, written
  as the indexer \<open>None\<close>). A column that the source frame does not have is all NA.
\<close>

definition reindex_indexer :: "'a list \<Rightarrow> 'a list \<Rightarrow> int list option" where
  "reindex_indexer src target = (if src = target then None else Some (get_indexer src target))"

definition na_column :: "nat \<Rightarrow> column" where
  "na_column n = \<lparr>dtype = Float64, vals = replicate n NA\<rparr>"

definition reindex_rows_with ::
  "('r, 'c) frame \<Rightarrow> 'r list \<Rightarrow> int list option \<Rightarrow> ('r, 'c) frame" where
  "reindex_rows_with f target indexer =
     (case indexer of
        None \<Rightarrow> f
      | Some ixs \<Rightarrow> \<lparr>index = target, data = map (\<lambda>(c, col). (c, take_col col ixs)) (data f)\<rparr>)"

definition reindex_columns_with ::
  "('r, 'c) frame \<Rightarrow> 'c list \<Rightarrow> int list option \<Rightarrow> ('r, 'c) frame" where
  "reindex_columns_with f target indexer =
     (case indexer of
        None \<Rightarrow> f
      | Some ixs \<Rightarrow>
          \<lparr>index = index f,
           data = map (\<lambda>(c, i). (c, if 0 \<le> i \<and> nat i < length (data f)
                                     then snd (data f ! nat i)
                                     else na_column (length (index f))))
                      (zip target ixs)\<rparr>)"

definition reindex_rows :: "('r, 'c) frame \<Rightarrow> 'r list \<Rightarrow> ('r, 'c) frame" where
  "reindex_rows f target = reindex_rows_with f target (reindex_indexer (index f) target)"

definition reindex_columns :: "('r, 'c) frame \<Rightarrow> 'c list \<Rightarrow> ('r, 'c) frame" where
  "reindex_columns f target =
     reindex_columns_with f target (reindex_indexer (columns f) target)"

definition reindex_like :: "('r, 'c) frame \<Rightarrow> ('r, 'c) frame \<Rightarrow> ('r, 'c) frame" where
  "reindex_like other self = reindex_columns (reindex_rows other (index self)) (columns self)"

section \<open>\<^verbatim>\<open>DataFrame.update\<close>\<close>

text \<open>
  \<^verbatim>\<open>self[col] = values\<close> for a label and an array (\<^verbatim>\<open>_set_item\<close>): the array must have
  the length of the row index; it replaces the buffer of every column with that label, or
  is appended as a new column. (A frame without rows that takes its row index from the
  assigned value is not modelled: \<^verbatim>\<open>update\<close> never assigns to such a frame.) The dtype
  of the array that \<^verbatim>\<open>expressions.where\<close> builds from two arrays is their common type.
\<close>

definition set_item :: "('r, 'c) frame \<Rightarrow> 'c \<Rightarrow> column \<Rightarrow> error + ('r, 'c) frame" where
  "set_item f k v =
     (if length (vals v) \<noteq> length (index f) then Inl ValuesLengthMismatch
      else if k \<in> set (columns f)
      then Inr (f\<lparr>data := map (\<lambda>(c, col). if c = k then (c, v) else (c, col)) (data f)\<rparr>)
      else Inr (f\<lparr>data := data f @ [(k, v)]\<rparr>))"

text \<open>
  The mask of one column: true where the left value is kept. With a filter function the
  mask is \<^verbatim>\<open>~filter_func(this) | isna(that)\<close> and no overlap check is made; the filter's
  result is an array of booleans of any length (a scalar result behaves as an array of
  length 1), combined with \<^verbatim>\<open>isna(that)\<close> by broadcasting. Without a filter function,
  \<^verbatim>\<open>errors='raise'\<close> raises when both sides are non-NA at some position; there the two
  arrays are columns of one row count.
\<close>

definition update_mask ::
  "bool \<Rightarrow> (cell list \<Rightarrow> bool list) option \<Rightarrow> string \<Rightarrow> cell list \<Rightarrow> cell list
     \<Rightarrow> error + bool list" where
  "update_mask overwrite filter_func errors this that =
     (case filter_func of
        Some ff \<Rightarrow> np_or (map Not (ff this)) (map isna that)
      | None \<Rightarrow>
          if errors = ''raise'' \<and> py_any (map2 (\<lambda>a b. a \<and> b) (map notna that) (map notna this))
          then Inl DataOverlap
          else Inr (if overwrite then map isna that else map notna this))"

text \<open>
  The loop over \<^verbatim>\<open>self.columns\<close>. The source changes \<^verbatim>\<open>self\<close> in place; the model
  passes the frame along and returns it. (When the source raises, the columns assigned so
  far stay assigned; the model returns the error alone.) A repeated column label makes
  \<^verbatim>\<open>self[col]\<close> a frame and its \<^verbatim>\<open>values\<close> two-dimensional; that path is not
  followed: the model stops there with \<open>TwoDimensionalValues\<close>. The argument
  \<^verbatim>\<open>other\<close> is a frame already.
\<close>

fun update_loop ::
  "bool \<Rightarrow> (cell list \<Rightarrow> bool list) option \<Rightarrow> string \<Rightarrow> 'c list
     \<Rightarrow> ('r, 'c) frame \<Rightarrow> ('r, 'c) frame \<Rightarrow> error + ('r, 'c) frame" where
  "update_loop overwrite filter_func errors [] self other = Inr self"
| "update_loop overwrite filter_func errors (col # rest) self other =
     (case getitem self (KLabel col) of
        Inl e \<Rightarrow> Inl e
      | Inr (Column this) \<Rightarrow>
          (case getitem other (KLabel col) of
             Inl e \<Rightarrow> Inl e
           | Inr (Column that) \<Rightarrow>
               (case update_mask overwrite filter_func errors (vals (scol this)) (vals (scol that)) of
                  Inl e \<Rightarrow> Inl e
                | Inr msk \<Rightarrow>
                    if np_all msk then update_loop overwrite filter_func errors rest self other
                    else (case np_where msk (vals (scol this)) (vals (scol that)) of
                            Inl e \<Rightarrow> Inl e
                          | Inr arr \<Rightarrow>
                              (case set_item self col
                                      \<lparr>dtype = find_common_type [dtype (scol this), dtype (scol that)],
                                       vals = arr\<rparr> of
                                 Inl e \<Rightarrow> Inl e
                               | Inr self' \<Rightarrow>
                                   update_loop overwrite filter_func errors rest self' other)))
           | Inr _ \<Rightarrow> Inl TwoDimensionalValues)
      | Inr _ \<Rightarrow> Inl TwoDimensionalValues)"

definition update ::
  "('r, 'c) frame \<Rightarrow> ('r, 'c) frame \<Rightarrow> string \<Rightarrow> bool \<Rightarrow> (cell list \<Rightarrow> bool list) option
     \<Rightarrow> string \<Rightarrow> error + ('r, 'c) frame" where
  "update self other join overwrite filter_func errors =
     (if join \<noteq> ''left'' then Inl NotImplementedError
      else if errors \<noteq> ''ignore'' \<and> errors \<noteq> ''raise'' then Inl BadErrorsArgument
      else update_loop overwrite filter_func errors (columns self) self (reindex_like other self))"

section \<open>Aligner\<close>

text \<open>
  Modelled from the spec: \<^verbatim>\<open>Index.union\<close> and \<^verbatim>\<open>Index.intersection\<close> are defined outside
  frame.py. The spec's rule: the union holds every label once, in sorted order; the
  intersection keeps the labels of the left index that occur in the right one, in the
  left index's order. The spec's alignment identity (the outer alignment of a table with
  itself yields its own index) makes the union of two equal indexes that index, unchanged.
\<close>

definition union_idx :: "'a::linorder list \<Rightarrow> 'a list \<Rightarrow> 'a list" where
  "union_idx l r = (if l = r then l else sort (remdups (l @ r)))"

fun intersection_idx :: "'a list \<Rightarrow> 'a list \<Rightarrow> 'a list" where
  "intersection_idx [] r = []"
| "intersection_idx (x # xs) r =
     (if x \<in> set r then x # intersection_idx xs r else intersection_idx xs r)"

text \<open>
  Modelled from the spec: \<^verbatim>\<open>DataFrame.align\<close> only forwards to \<^verbatim>\<open>NDFrame.align\<close>, which
  is defined outside frame.py. The spec's Aligner, per axis: equal indexes are a no-op
  (the fast path); otherwise \<open>outer\<close> is the sorted union, \<open>inner\<close> the intersection in
  the left operand's order, \<open>left\<close> and \<open>right\<close> the index of that operand. Each side
  gets a \<^verbatim>\<open>get_indexer\<close> against the result index. When both axes need alignment and an
  axis index of either side is not unique, alignment fails with AmbiguousAlignment.
\<close>

datatype policy = JOuter | JInner | JLeft | JRight

definition join_index :: "policy \<Rightarrow> 'a::linorder list \<Rightarrow> 'a list \<Rightarrow> 'a list" where
  "join_index pol l r =
     (if l = r then l
      else (case pol of
              JOuter \<Rightarrow> union_idx l r
            | JInner \<Rightarrow> intersection_idx l r
            | JLeft \<Rightarrow> l
            | JRight \<Rightarrow> r))"

record ('r, 'c) join_plan =
  resultRowIndex :: "'r list"
  resultColIndex :: "'c list"
  leftIndexer :: "int list option \<times> int list option"
  rightIndexer :: "int list option \<times> int list option"
  fillValue :: cell

definition make_join_plan ::
  "policy \<Rightarrow> ('r::linorder, 'c::linorder) frame \<Rightarrow> ('r, 'c) frame
     \<Rightarrow> error + ('r, 'c) join_plan" where
  "make_join_plan pol left right =
     (if index left \<noteq> index right \<and> columns left \<noteq> columns right \<and>
         \<not> (distinct (index left) \<and> distinct (index right) \<and>
            distinct (columns left) \<and> distinct (columns right))
      then Inl AmbiguousAlignment
      else (let rows = join_index pol (index left) (index right);
                cols = join_index pol (columns left) (columns right)
            in Inr \<lparr>resultRowIndex = rows,
                    resultColIndex = cols,
                    leftIndexer = (reindex_indexer (index left) rows,
                                   reindex_indexer (columns left) cols),
                    rightIndexer = (reindex_indexer (index right) rows,
                                    reindex_indexer (columns right) cols),
                    fillValue = NA\<rparr>))"

definition apply_plan ::
  "('r, 'c) frame \<Rightarrow> 'r list \<Rightarrow> 'c list \<Rightarrow> int list option \<times> int list option
     \<Rightarrow> ('r, 'c) frame" where
  "apply_plan f rows cols indexer =
     reindex_columns_with (reindex_rows_with f rows (fst indexer)) cols (snd indexer)"

definition align ::
  "policy \<Rightarrow> ('r::linorder, 'c::linorder) frame \<Rightarrow> ('r, 'c) frame
     \<Rightarrow> error + ('r, 'c) frame \<times> ('r, 'c) frame" where
  "align pol left right =
     (case make_join_plan pol left right of
        Inl e \<Rightarrow> Inl e
      | Inr p \<Rightarrow>
          Inr (apply_plan left (resultRowIndex p) (resultColIndex p) (leftIndexer p),
               apply_plan right (resultRowIndex p) (resultColIndex p) (rightIndexer p)))"

section \<open>\<^verbatim>\<open>DataFrame.combine\<close> and \<^verbatim>\<open>DataFrame.combine_first\<close>\<close>

text \<open>
  Modelled from the spec: \<^verbatim>\<open>Series.astype\<close> and \<^verbatim>\<open>maybe_downcast_to_dtype\<close> are defined
  outside frame.py. A cell fits a dtype when the dtype can store it without loss: every
  cell fits the object type, numbers and NA fit \<open>Float64\<close>, whole numbers fit
  \<open>Int64\<close>, booleans fit \<open>BoolT\<close>. \<^verbatim>\<open>astype\<close> changes the dtype when every cell
  fits the target and fails otherwise; the downcast (the spec: "attempts to downcast the
  result back if no precision is lost") changes the dtype when the target is not wider
  than the array's dtype and every cell fits the target, and leaves the array as it is
  otherwise.
\<close>

definition fits :: "dtype \<Rightarrow> cell \<Rightarrow> bool" where
  "fits d c =
     (case d of
        ObjectT \<Rightarrow> True
      | Float64 \<Rightarrow> (case c of NA \<Rightarrow> True | Num q \<Rightarrow> True | Flag b \<Rightarrow> False | Text t \<Rightarrow> False)
      | Int64 \<Rightarrow> (case c of NA \<Rightarrow> False | Num q \<Rightarrow> q = of_int \<lfloor>q\<rfloor> | Flag b \<Rightarrow> False | Text t \<Rightarrow> False)
      | BoolT \<Rightarrow> (case c of NA \<Rightarrow> False | Num q \<Rightarrow> False | Flag b \<Rightarrow> True | Text t \<Rightarrow> False))"

definition astype :: "column \<Rightarrow> dtype \<Rightarrow> error + column" where
  "astype col d = (if list_all (fits d) (vals col) then Inr (col\<lparr>dtype := d\<rparr>) else Inl CastError)"

definition maybe_downcast_to_dtype :: "column \<Rightarrow> dtype \<Rightarrow> column" where
  "maybe_downcast_to_dtype arr d =
     (if find_common_type [dtype arr, d] = dtype arr \<and> list_all (fits d) (vals arr)
      then arr\<lparr>dtype := d\<rparr> else arr)"

text \<open>
  \<^verbatim>\<open>series[mask] = fill_value\<close>: every NA cell becomes the fill value; a fill value that
  the column's dtype cannot store turns the column into an object column.
\<close>

definition fill_na :: "column \<Rightarrow> cell \<Rightarrow> column" where
  "fill_na col fv =
     \<lparr>dtype = (if list_ex isna (vals col) \<and> \<not> fits (dtype col) fv then ObjectT else dtype col),
      vals = map (\<lambda>c. if isna c then fv else c) (vals col)\<rparr>"

text \<open>
  The body of the loop of \<^verbatim>\<open>combine\<close> for one column label. It returns the array stored
  in \<^verbatim>\<open>result[col]\<close>, and whether \<open>func\<close> was called. \<^verbatim>\<open>this[col]\<close> and
  \<^verbatim>\<open>other[col]\<close> go through \<^verbatim>\<open>__getitem__\<close>; for a repeated label they are frames, and a
  frame has no attribute \<^verbatim>\<open>dtype\<close>. The merge function may fail.
\<close>

definition combine_column ::
  "('r, 'c) frame \<Rightarrow> ('r, 'c) frame \<Rightarrow> ('r, 'c) frame
     \<Rightarrow> (('r, 'c) series \<Rightarrow> ('r, 'c) series \<Rightarrow> error + column)
     \<Rightarrow> cell option \<Rightarrow> bool \<Rightarrow> 'c \<Rightarrow> error + column \<times> bool" where
  "combine_column self this other func fill_value overwrite col =
     (case getitem this (KLabel col) of
        Inl e \<Rightarrow> Inl e
      | Inr item1 \<Rightarrow>
     (case getitem other (KLabel col) of
        Inl e \<Rightarrow> Inl e
      | Inr item2 \<Rightarrow>
     (case item1 of
        Column series \<Rightarrow>
     (case item2 of
        Column otherSeries \<Rightarrow>
          (let this_dtype = dtype (scol series);
               other_dtype = dtype (scol otherSeries);
               other_mask = map isna (vals (scol otherSeries))
           in
           if \<not> overwrite \<and> np_all other_mask then Inr (scol series, False)
           else
             (let series1 = (case fill_value of
                               None \<Rightarrow> series
                             | Some fv \<Rightarrow> series\<lparr>scol := fill_na (scol series) fv\<rparr>);
                  otherSeries1 = (case fill_value of
                                    None \<Rightarrow> otherSeries
                                  | Some fv \<Rightarrow> otherSeries\<lparr>scol := fill_na (scol otherSeries) fv\<rparr>);
                  promoted =
                    (if col \<notin> set (columns self) then
                       (case astype (scol series1) other_dtype of
                          Inl e \<Rightarrow> Inr (series1, otherSeries1)
                        | Inr c \<Rightarrow> Inr (series1\<lparr>scol := c\<rparr>, otherSeries1))
                     else
                       (let new_dtype = find_common_type [this_dtype, other_dtype] in
                        (case (if this_dtype \<noteq> new_dtype then astype (scol series1) new_dtype
                               else Inr (scol series1)) of
                           Inl e \<Rightarrow> Inl e
                         | Inr c1 \<Rightarrow>
                        (case (if other_dtype \<noteq> new_dtype then astype (scol otherSeries1) new_dtype
                               else Inr (scol otherSeries1)) of
                           Inl e \<Rightarrow> Inl e
                         | Inr c2 \<Rightarrow> Inr (series1\<lparr>scol := c1\<rparr>, otherSeries1\<lparr>scol := c2\<rparr>)))))
              in
              (case promoted of
                 Inl e \<Rightarrow> Inl e
               | Inr (series2, otherSeries2) \<Rightarrow>
                   (case func series2 otherSeries2 of
                      Inl e \<Rightarrow> Inl e
                    | Inr arr \<Rightarrow> Inr (maybe_downcast_to_dtype arr this_dtype, True)))))
      | _ \<Rightarrow> Inl AttributeError)
      | _ \<Rightarrow> Inl AttributeError)))"

text \<open>
  The loop over \<^verbatim>\<open>new_columns\<close>: \<^verbatim>\<open>result\<close> is the dictionary of arrays, \<open>calls\<close> the
  labels for which \<open>func\<close> has been called, in order.
\<close>

fun combine_loop ::
  "('c \<Rightarrow> error + column \<times> bool) \<Rightarrow> 'c list \<Rightarrow> ('c \<rightharpoonup> column) \<Rightarrow> 'c list
     \<Rightarrow> error + ('c \<rightharpoonup> column) \<times> 'c list" where
  "combine_loop step [] result calls = Inr (result, calls)"
| "combine_loop step (col # rest) result calls =
     (case step col of
        Inl e \<Rightarrow> Inl e
      | Inr (arr, called) \<Rightarrow>
          combine_loop step rest (result(col \<mapsto> arr)) (if called then calls @ [col] else calls))"

text \<open>
  \<^verbatim>\<open>self._constructor(result, index=new_index, columns=new_columns)\<close>: the columns are
  read from the dictionary in the order of \<^verbatim>\<open>new_columns\<close> (a label without an entry is
  an all-NA column), and every array must have the length of the index.
\<close>

definition frame_from_dict ::
  "('c \<rightharpoonup> column) \<Rightarrow> 'r list \<Rightarrow> 'c list \<Rightarrow> error + ('r, 'c) frame" where
  "frame_from_dict result idx cols =
     (let d = map (\<lambda>c. (c, case result c of None \<Rightarrow> na_column (length idx) | Some v \<Rightarrow> v)) cols
      in if list_ex (\<lambda>(c, v). length (vals v) \<noteq> length idx) d then Inl ValuesLengthMismatch
         else Inr \<lparr>index = idx, data = d\<rparr>)"

text \<open>
  \<^verbatim>\<open>combine\<close>, with the list of labels for which \<open>func\<close> was called next to the frame it
  returns. After \<^verbatim>\<open>this, other = self.align(other, copy=False)\<close> the name \<^verbatim>\<open>other\<close> is
  the aligned frame; \<^verbatim>\<open>other_idxlen\<close> was taken before.
\<close>

definition combine_traced ::
  "('r::linorder, 'c::linorder) frame \<Rightarrow> ('r, 'c) frame
     \<Rightarrow> (('r, 'c) series \<Rightarrow> ('r, 'c) series \<Rightarrow> error + column)
     \<Rightarrow> cell option \<Rightarrow> bool \<Rightarrow> error + ('r, 'c) frame \<times> 'c list" where
  "combine_traced self other0 func fill_value overwrite =
     (let other_idxlen = length (index other0) in
      (case align JOuter self other0 of
         Inl e \<Rightarrow> Inl e
       | Inr (this, other) \<Rightarrow>
           (let new_index = index this in
            if empty other \<and> length new_index = length (index self) then Inr (self, [])
            else if empty self \<and> length (index other) = other_idxlen then Inr (other, [])
            else
              (let new_columns = union_idx (columns this) (columns other) in
               (case combine_loop (combine_column self this other func fill_value overwrite)
                       new_columns Map.empty [] of
                  Inl e \<Rightarrow> Inl e
                | Inr (result, calls) \<Rightarrow>
                    (case frame_from_dict result new_index new_columns of
                       Inl e \<Rightarrow> Inl e
                     | Inr r \<Rightarrow> Inr (r, calls)))))))"

definition combine ::
  "('r::linorder, 'c::linorder) frame \<Rightarrow> ('r, 'c) frame
     \<Rightarrow> (('r, 'c) series \<Rightarrow> ('r, 'c) series \<Rightarrow> error + column)
     \<Rightarrow> cell option \<Rightarrow> bool \<Rightarrow> error + ('r, 'c) frame" where
  "combine self other func fill_value overwrite =
     (case combine_traced self other func fill_value overwrite of
        Inl e \<Rightarrow> Inl e
      | Inr (r, calls) \<Rightarrow> Inr r)"

text \<open>
  \<^verbatim>\<open>combine_first\<close>: the merge function \<^verbatim>\<open>combiner\<close> takes \<open>y\<close> where \<open>x\<close> is NA, and
  returns \<open>y\<close>'s values when \<open>y\<close>'s column is not a column of \<^verbatim>\<open>self\<close>. (The conversion
  of date-like values to integers in \<^verbatim>\<open>extract_values\<close> has no counterpart in this cell
  model.)
\<close>

definition combiner ::
  "('r, 'c) frame \<Rightarrow> ('r, 'c) series \<Rightarrow> ('r, 'c) series \<Rightarrow> error + column" where
  "combiner self x y =
     (let msk = map isna (vals (scol x));
          x_values = scol x;
          y_values = scol y
      in if name y \<notin> set (columns self) then Inr y_values
         else (case np_where msk (vals y_values) (vals x_values) of
                 Inl e \<Rightarrow> Inl e
               | Inr arr \<Rightarrow>
                   Inr \<lparr>dtype = find_common_type [dtype y_values, dtype x_values],
                        vals = arr\<rparr>))"

definition combine_first ::
  "('r::linorder, 'c::linorder) frame \<Rightarrow> ('r, 'c) frame \<Rightarrow> error + ('r, 'c) frame" where
  "combine_first self other = combine self other (combiner self) None False"

section \<open>Well-formed frames\<close>

text \<open>
  The Table invariant of the data model: every column buffer has as many cells as the
  row index has labels. \<open>cell_at f c i\<close> reads the cell of the (first) column labelled
  \<open>c\<close> at row position \<open>i\<close>.
\<close>

definition wf_frame :: "('r, 'c) frame \<Rightarrow> bool" where
  "wf_frame f = list_all (\<lambda>(c, col). length (vals col) = length (index f)) (data f)"




text \<open>
  The narrower of two dtypes, in the spec's words: the one that the promotion rule does
  not pick as the common type. \<open>take_right\<close> is a merge function that returns the
  (promoted) right column.
\<close>

definition narrower :: "dtype \<Rightarrow> dtype \<Rightarrow> dtype" where
  "narrower a b = (if find_common_type [a, b] = a then b else a)"

definition take_right :: "('r, 'c) series \<Rightarrow> ('r, 'c) series \<Rightarrow> error + column" where
  "take_right x y = Inr (scol y)"

section \<open>Basic facts\<close>

lemma wf_frame_lookup:
  "wf_frame f \<Longrightarrow> map_of (data f) c = Some col \<Longrightarrow> length (vals col) = length (index f)"
  by (auto simp: wf_frame_def list_all_iff dest!: map_of_SomeD)

lemma lookup_in_columns: "c \<in> set (columns f) \<Longrightarrow> \<exists>col. map_of (data f) c = Some col"
  by (cases "map_of (data f) c") (auto simp: columns_def map_of_eq_None_iff)

lemma getitem_label_unique:
  "distinct (columns f) \<Longrightarrow> map_of (data f) c = Some col \<Longrightarrow>
   getitem f (KLabel c) = Inr (Column \<lparr>name = c, sindex = index f, scol = col\<rparr>)"
proof -
  assume d: "distinct (columns f)" and m: "map_of (data f) c = Some col"
  from m have "c \<in> set (columns f)"
    unfolding columns_def by (metis map_of_eq_None_iff option.distinct(1) set_map)
  with d m show ?thesis by (simp add: getitem_def get_item_cache_def)
qed




lemma bget_nth: "i < length xs \<Longrightarrow> bget xs i = xs ! i"
  by (auto simp: bget_def)

lemma np_where_same_length:
  assumes "length m = n" "length a = n" "length b = n"
  shows "np_where m a b = Inr (map (\<lambda>i. if m ! i then a ! i else b ! i) [0..<n])"
proof -
  have "map (\<lambda>i. if bget m i then bget a i else bget b i) [0..<n] =
        map (\<lambda>i. if m ! i then a ! i else b ! i) [0..<n]"
    using assms by (intro map_cong) (simp_all add: bget_nth)
  then show ?thesis
    using assms by (simp add: np_where_def broadcast_len_def)
qed



lemma length_get_indexer: "length (get_indexer xs t) = length t"
  by (simp add: get_indexer_def)

subsection \<open>Reindexing keeps frames well-formed\<close>

lemma reindex_rows_with_index:
  "ixs = None \<longrightarrow> index f = t \<Longrightarrow> index (reindex_rows_with f t ixs) = t"
  by (cases ixs) (auto simp: reindex_rows_with_def)

lemma reindex_rows_with_columns: "columns (reindex_rows_with f t ixs) = columns f"
  by (cases ixs) (auto simp: reindex_rows_with_def columns_def split_def)

lemma reindex_rows_with_wf:
  "wf_frame f \<Longrightarrow> \<forall>js. ixs = Some js \<longrightarrow> length js = length t \<Longrightarrow>
   wf_frame (reindex_rows_with f t ixs)"
  by (cases ixs)
     (auto simp: reindex_rows_with_def wf_frame_def list_all_iff take_col_def take_fill_def)

lemma reindex_columns_with_index: "index (reindex_columns_with f t ixs) = index f"
  by (cases ixs) (auto simp: reindex_columns_with_def)

lemma reindex_columns_with_columns:
  assumes "ixs = None \<longrightarrow> columns f = t" "\<forall>js. ixs = Some js \<longrightarrow> length js = length t"
  shows "columns (reindex_columns_with f t ixs) = t"
proof (cases ixs)
  case None
  then show ?thesis using assms by (simp add: reindex_columns_with_def)
next
  case (Some js)
  then have "length js = length t" using assms by simp
  then have "map fst (map (\<lambda>(c, i). (c, g i)) (zip t js)) = t" for g :: "int \<Rightarrow> column"
    by (simp add: split_def comp_def)
  with Some show ?thesis
    by (simp add: reindex_columns_with_def columns_def)
qed

lemma reindex_columns_with_wf:
  assumes "wf_frame f"
  shows "wf_frame (reindex_columns_with f t ixs)"
proof (cases ixs)
  case None
  then show ?thesis using assms by (simp add: reindex_columns_with_def)
next
  case (Some js)
  have *: "length (vals (if 0 \<le> i \<and> nat i < length (data f) then snd (data f ! nat i)
                         else na_column (length (index f)))) = length (index f)" for i :: int
  proof (cases "0 \<le> i \<and> nat i < length (data f)")
    case True
    then have "data f ! nat i \<in> set (data f)" by simp
    with assms have "length (vals (snd (data f ! nat i))) = length (index f)"
      by (auto simp: wf_frame_def list_all_iff)
    with True show ?thesis by simp
  next
    case False
    then show ?thesis by (auto simp: na_column_def)
  qed
  have "reindex_columns_with f t ixs =
        \<lparr>index = index f,
         data = map (\<lambda>(c, i). (c, if 0 \<le> i \<and> nat i < length (data f)
                                   then snd (data f ! nat i)
                                   else na_column (length (index f))))
                    (zip t js)\<rparr>"
    using Some by (simp add: reindex_columns_with_def)
  then show ?thesis
    unfolding wf_frame_def list_all_iff using * by (simp add: split_def del: if_split)
qed


section \<open>Properties of \<^verbatim>\<open>update\<close>\<close>

















text \<open>
  Claim C6. \<open>A\<close> holds \<open>[1, null]\<close> and \<open>B\<close> holds \<open>[9, 9]\<close> in the same column on the
  same row index: \<^verbatim>\<open>A.update(B, overwrite=False)\<close> leaves \<open>[1, 9]\<close>, and
  \<^verbatim>\<open>A.update(B, overwrite=True)\<close> leaves \<open>[9, 9]\<close>.
\<close>

theorem update_overwrite_flag_example:
  "update \<lparr>index = [0::nat, 1], data = [(''col'', \<lparr>dtype = Float64, vals = [Num 1, NA]\<rparr>)]\<rparr>
          \<lparr>index = [0::nat, 1], data = [(''col'', \<lparr>dtype = Int64, vals = [Num 9, Num 9]\<rparr>)]\<rparr>
          ''left'' False None ''ignore''
     = Inr \<lparr>index = [0, 1], data = [(''col'', \<lparr>dtype = Float64, vals = [Num 1, Num 9]\<rparr>)]\<rparr> \<and>
   update \<lparr>index = [0::nat, 1], data = [(''col'', \<lparr>dtype = Float64, vals = [Num 1, NA]\<rparr>)]\<rparr>
          \<lparr>index = [0::nat, 1], data = [(''col'', \<lparr>dtype = Int64, vals = [Num 9, Num 9]\<rparr>)]\<rparr>
          ''left'' True None ''ignore''
     = Inr \<lparr>index = [0, 1], data = [(''col'', \<lparr>dtype = Float64, vals = [Num 9, Num 9]\<rparr>)]\<rparr>"
  by code_simp

theorem update_overwrite_flag_example_witness:
  "update \<lparr>index = [0::nat, 1], data = [(''col'', \<lparr>dtype = Float64, vals = [Num 1, NA]\<rparr>)]\<rparr>
          \<lparr>index = [0::nat, 1], data = [(''col'', \<lparr>dtype = Int64, vals = [Num 9, Num 9]\<rparr>)]\<rparr>
          ''left'' False None ''ignore''
     \<noteq> update \<lparr>index = [0::nat, 1], data = [(''col'', \<lparr>dtype = Float64, vals = [Num 1, NA]\<rparr>)]\<rparr>
          \<lparr>index = [0::nat, 1], data = [(''col'', \<lparr>dtype = Int64, vals = [Num 9, Num 9]\<rparr>)]\<rparr>
          ''left'' True None ''ignore''"
  using update_overwrite_flag_example by simp

section \<open>Properties of selection\<close>

lemma set_positions: "set (positions xs k) = {i. i < length xs \<and> xs ! i = k}"
  by (auto simp: positions_def)

lemma positions_snoc:
  "positions (xs @ [x]) k = positions xs k @ (if x = k then [length xs] else [])"
proof -
  have "filter (\<lambda>i. (xs @ [x]) ! i = k) [0..<length xs] = filter (\<lambda>i. xs ! i = k) [0..<length xs]"
    by (rule filter_cong) (auto simp: nth_append)
  then show ?thesis by (simp add: positions_def)
qed

lemma positions_Nil: "positions [] k = []"
  by (simp add: positions_def)

lemma length_positions: "length (positions xs k) = count_list xs k"
  by (induction xs rule: rev_induct) (simp_all add: positions_snoc positions_Nil)

lemma distinct_count_le_1: "distinct xs \<Longrightarrow> count_list xs k \<le> 1"
  by (induction xs) auto

lemma take_pos_positions:
  "take_pos xs (positions (map fst xs) k) = filter (\<lambda>p. fst p = k) xs"
proof (induction xs rule: rev_induct)
  case Nil
  then show ?case by (simp add: positions_def take_pos_def)
next
  case (snoc x xs)
  have "map (\<lambda>p. (xs @ [x]) ! p) (positions (map fst xs) k) = map (\<lambda>p. xs ! p) (positions (map fst xs) k)"
    by (rule map_cong) (auto simp: set_positions nth_append)
  with snoc show ?case
    by (simp add: positions_snoc take_pos_def)
qed

lemma getitem_count_one:
  assumes "count_list (columns f) k = 1"
  shows "\<exists>col. (k, col) \<in> set (data f) \<and>
               getitem f (KLabel k) = Inr (Column \<lparr>name = k, sindex = index f, scol = col\<rparr>)"
proof (cases "distinct (columns f)")
  case True
  from assms have "k \<in> set (columns f)"
    by (metis count_list_0_iff zero_neq_one)
  then obtain col where col: "map_of (data f) k = Some col"
    using lookup_in_columns by metis
  then have "(k, col) \<in> set (data f)" by (rule map_of_SomeD)
  with getitem_label_unique [OF True col] show ?thesis by blast
next
  case False
  from assms have "length (positions (columns f) k) = 1" by (simp add: length_positions)
  then obtain i where i: "positions (columns f) k = [i]"
    by (cases "positions (columns f) k") auto
  then have "i \<in> set (positions (columns f) k)" by simp
  then have il: "i < length (data f)" and ik: "fst (data f ! i) = k"
    by (auto simp: set_positions columns_def)
  obtain col where col: "data f ! i = (k, col)" using ik by (cases "data f ! i") auto
  have mem: "(k, col) \<in> set (data f)" using il col by (metis nth_mem)
  have "getitem f (KLabel k) = Inr (Column \<lparr>name = k, sindex = index f, scol = col\<rparr>)"
    using False i col
    by (simp add: getitem_def get_loc_def take_columns_def take_pos_def get_item_cache_def)
  with mem show ?thesis by blast
qed

lemma getitem_count_many:
  assumes "1 < count_list (columns f) k"
  shows "getitem f (KLabel k) =
         Inr (Frame \<lparr>index = index f, data = filter (\<lambda>p. fst p = k) (data f)\<rparr>)"
proof -
  have nd: "\<not> distinct (columns f)"
    using assms distinct_count_le_1 [of "columns f" k] by auto
  from assms have len: "1 < length (positions (columns f) k)" by (simp add: length_positions)
  then obtain i j ps where ps: "positions (columns f) k = i # j # ps"
    by (cases "positions (columns f) k"; cases "tl (positions (columns f) k)") auto
  have tp: "take_pos (data f) (positions (columns f) k) = filter (\<lambda>p. fst p = k) (data f)"
    unfolding columns_def by (rule take_pos_positions)
  have "length (take_pos (data f) (i # j # ps)) \<noteq> 1" by (simp add: take_pos_def)
  then show ?thesis
    using nd ps tp
    by (simp add: getitem_def get_loc_def take_columns_def)
qed

text \<open>
  Claim C7. On a flat (single-level) column axis, a single key that matches exactly one
  column returns that column itself, as a Series on the frame's row index; a key that
  matches more than one column returns the narrower frame of exactly those columns.
\<close>

theorem getitem_single_key_squeeze:
  "(count_list (columns f) k = 1 \<longrightarrow>
      (\<exists>col. (k, col) \<in> set (data f) \<and>
             getitem f (KLabel k) = Inr (Column \<lparr>name = k, sindex = index f, scol = col\<rparr>))) \<and>
   (1 < count_list (columns f) k \<longrightarrow>
      getitem f (KLabel k) =
        Inr (Frame \<lparr>index = index f, data = filter (\<lambda>p. fst p = k) (data f)\<rparr>))"
  by (intro conjI impI getitem_count_one getitem_count_many)


theorem getitem_single_key_squeeze_witness:
  "count_list (columns \<lparr>index = [0::nat],
                         data = [(''a'', \<lparr>dtype = Int64, vals = [Num 1]\<rparr>),
                                 (''a'', \<lparr>dtype = Int64, vals = [Num 2]\<rparr>),
                                 (''b'', \<lparr>dtype = Int64, vals = [Num 3]\<rparr>)]\<rparr>) ''b'' = 1 \<and>
   1 < count_list (columns \<lparr>index = [0::nat],
                         data = [(''a'', \<lparr>dtype = Int64, vals = [Num 1]\<rparr>),
                                 (''a'', \<lparr>dtype = Int64, vals = [Num 2]\<rparr>),
                                 (''b'', \<lparr>dtype = Int64, vals = [Num 3]\<rparr>)]\<rparr>) ''a'' \<and>
   getitem \<lparr>index = [0::nat],
            data = [(''a'', \<lparr>dtype = Int64, vals = [Num 1]\<rparr>),
                    (''a'', \<lparr>dtype = Int64, vals = [Num 2]\<rparr>),
                    (''b'', \<lparr>dtype = Int64, vals = [Num 3]\<rparr>)]\<rparr> (KLabel ''b'')
     = Inr (Column \<lparr>name = ''b'', sindex = [0], scol = \<lparr>dtype = Int64, vals = [Num 3]\<rparr>\<rparr>) \<and>
   getitem \<lparr>index = [0::nat],
            data = [(''a'', \<lparr>dtype = Int64, vals = [Num 1]\<rparr>),
                    (''a'', \<lparr>dtype = Int64, vals = [Num 2]\<rparr>),
                    (''b'', \<lparr>dtype = Int64, vals = [Num 3]\<rparr>)]\<rparr> (KLabel ''a'')
     = Inr (Frame \<lparr>index = [0],
                   data = [(''a'', \<lparr>dtype = Int64, vals = [Num 1]\<rparr>),
                           (''a'', \<lparr>dtype = Int64, vals = [Num 2]\<rparr>)]\<rparr>)"
proof -
  let ?F = "\<lparr>index = [0::nat],
             data = [(''a'', \<lparr>dtype = Int64, vals = [Num 1]\<rparr>),
                     (''a'', \<lparr>dtype = Int64, vals = [Num 2]\<rparr>),
                     (''b'', \<lparr>dtype = Int64, vals = [Num 3]\<rparr>)]\<rparr>"
  have cb: "count_list (columns ?F) ''b'' = 1" and ca: "1 < count_list (columns ?F) ''a''"
    by (simp_all add: columns_def)
  from getitem_single_key_squeeze [of ?F "''b''"] cb obtain col where
    col: "(''b'', col) \<in> set (data ?F)"
      "getitem ?F (KLabel ''b'') = Inr (Column \<lparr>name = ''b'', sindex = index ?F, scol = col\<rparr>)"
    by blast
  from col(1) have "col = \<lparr>dtype = Int64, vals = [Num 3]\<rparr>" by simp
  with col(2) have gb: "getitem ?F (KLabel ''b'') =
      Inr (Column \<lparr>name = ''b'', sindex = [0], scol = \<lparr>dtype = Int64, vals = [Num 3]\<rparr>\<rparr>)"
    by simp
  from getitem_single_key_squeeze [of ?F "''a''"] ca have
    "getitem ?F (KLabel ''a'') =
       Inr (Frame \<lparr>index = index ?F, data = filter (\<lambda>p. fst p = ''a'') (data ?F)\<rparr>)"
    by blast
  then have ga: "getitem ?F (KLabel ''a'') =
      Inr (Frame \<lparr>index = [0],
                   data = [(''a'', \<lparr>dtype = Int64, vals = [Num 1]\<rparr>),
                           (''a'', \<lparr>dtype = Int64, vals = [Num 2]\<rparr>)]\<rparr>)"
    by simp
  show ?thesis by (intro conjI cb ca gb ga)
qed


lemma first_pos_neg_iff: "first_pos xs k < 0 \<longleftrightarrow> k \<notin> set xs"
  by (induction xs) (auto simp: Let_def)

lemma first_pos_ge: "first_pos xs k < 0 \<or> (0 \<le> first_pos xs k \<and> nat (first_pos xs k) < length xs)"
  by (induction xs) (auto simp: Let_def)

lemma first_pos_in_range:
  "k \<in> set xs \<Longrightarrow> 0 \<le> first_pos xs k \<and> nat (first_pos xs k) < length xs"
  using first_pos_ge [of xs k] first_pos_neg_iff [of xs k] by auto

lemma nonzero_snoc: "nonzero (bs @ [b]) = nonzero bs @ (if b then [length bs] else [])"
proof -
  have "filter (\<lambda>i. (bs @ [b]) ! i) [0..<length bs] = filter (\<lambda>i. bs ! i) [0..<length bs]"
    by (rule filter_cong) (auto simp: nth_append)
  then show ?thesis by (simp add: nonzero_def)
qed

lemma set_nonzero: "set (nonzero bs) = {i. i < length bs \<and> bs ! i}"
  by (auto simp: nonzero_def)

lemma take_pos_append: "take_pos xs (ps @ qs) = take_pos xs ps @ take_pos xs qs"
  by (simp add: take_pos_def)

lemma take_pos_nonzero:
  "length bs = length xs \<Longrightarrow> take_pos xs (nonzero bs) = map snd (filter fst (zip bs xs))"
proof (induction bs arbitrary: xs rule: rev_induct)
  case Nil
  then show ?case by (simp add: nonzero_def take_pos_def)
next
  case (snoc b bs)
  then obtain ys y where xs: "xs = ys @ [y]" and len: "length ys = length bs"
    by (metis length_append_singleton length_Suc_conv_rev)
  have a: "take_pos (ys @ [y]) (nonzero bs) = take_pos ys (nonzero bs)"
    unfolding take_pos_def by (rule map_cong) (auto simp: set_nonzero nth_append len)
  have l: "take_pos (ys @ [y]) [length bs] = [y]"
    using len by (simp add: take_pos_def nth_append)
  have e: "take_pos (ys @ [y]) [] = []"
    by (simp add: take_pos_def)
  have ih: "take_pos ys (nonzero bs) = map snd (filter fst (zip bs ys))"
    using snoc.IH [of ys] len by simp
  show ?case
    using len by (simp add: xs nonzero_snoc take_pos_append a l e ih)
qed

lemma take_rows_nonzero:
  assumes "wf_frame f" "length kv = length (index f)"
  shows "take_rows f (nonzero kv) =
         \<lparr>index = map snd (filter fst (zip kv (index f))),
          data = map (\<lambda>(c, col). (c, col\<lparr>vals := map snd (filter fst (zip kv (vals col)))\<rparr>)) (data f)\<rparr>"
proof -
  have "take_pos (vals col) (nonzero kv) = map snd (filter fst (zip kv (vals col)))"
    if "(c, col) \<in> set (data f)" for c col
    using that assms by (intro take_pos_nonzero) (auto simp: wf_frame_def list_all_iff)
  then have "map (\<lambda>(c, col). (c, col\<lparr>vals := take_pos (vals col) (nonzero kv)\<rparr>)) (data f) =
             map (\<lambda>(c, col). (c, col\<lparr>vals := map snd (filter fst (zip kv (vals col)))\<rparr>)) (data f)"
    by (intro map_cong) auto
  then show ?thesis
    using assms(2) by (simp add: take_rows_def take_pos_nonzero)
qed

lemma check_bool_indexer_reindex:
  assumes "ki \<noteq> ax" "length kv = length ki"
  shows "check_bool_indexer ax (Some ki) kv =
         (if set ax \<subseteq> set ki then Inr (map (\<lambda>l. kv ! nat (first_pos ki l)) ax)
          else Inl UnalignableBooleanKey)"
proof -
  have "list_ex (\<lambda>i. i < 0 \<or> length kv \<le> nat i) (get_indexer ki ax) \<longleftrightarrow> \<not> set ax \<subseteq> set ki"
  proof
    assume "list_ex (\<lambda>i. i < 0 \<or> length kv \<le> nat i) (get_indexer ki ax)"
    then obtain l where l: "l \<in> set ax" "first_pos ki l < 0 \<or> length kv \<le> nat (first_pos ki l)"
      by (auto simp: list_ex_iff get_indexer_def)
    then have "l \<notin> set ki"
      using first_pos_in_range [of l ki] assms(2) by auto
    with l(1) show "\<not> set ax \<subseteq> set ki" by auto
  next
    assume "\<not> set ax \<subseteq> set ki"
    then obtain l where "l \<in> set ax" "l \<notin> set ki" by auto
    then show "list_ex (\<lambda>i. i < 0 \<or> length kv \<le> nat i) (get_indexer ki ax)"
      by (auto simp: list_ex_iff get_indexer_def first_pos_neg_iff intro!: bexI [of _ l])
  qed
  then show ?thesis
    using assms(1) by (simp add: check_bool_indexer_def Let_def get_indexer_def comp_def)
qed

text \<open>
  Claim C8, as the code has it. A boolean array (a key without a label index) of the
  row index's length is a direct mask, and of another length fails with LengthMismatch.
  A boolean Series whose index is the row index is a direct mask too. A boolean Series
  with another index is reindexed to the row index whatever its length, and fails with
  UnalignableBooleanKey when a row label is missing from its index. The direct mask
  selects exactly the rows at true positions, in their order.
\<close>

theorem getitem_bool_key:
  "getitem f (KBoolArray kv) =
     (if length kv = length (index f) then Inr (Frame (take_rows f (nonzero kv)))
      else Inl LengthMismatch) \<and>
   (length kv = length ki \<longrightarrow>
      getitem f (KBoolSeries ki kv) =
        (if ki = index f then Inr (Frame (take_rows f (nonzero kv)))
         else if set (index f) \<subseteq> set ki
         then Inr (Frame (take_rows f (nonzero (map (\<lambda>l. kv ! nat (first_pos ki l)) (index f)))))
         else Inl UnalignableBooleanKey)) \<and>
   (wf_frame f \<and> length kv = length (index f) \<longrightarrow>
      take_rows f (nonzero kv) =
        \<lparr>index = map snd (filter fst (zip kv (index f))),
         data = map (\<lambda>(c, col). (c, col\<lparr>vals := map snd (filter fst (zip kv (vals col)))\<rparr>))
                    (data f)\<rparr>)"
proof (intro conjI impI)
  show "getitem f (KBoolArray kv) =
     (if length kv = length (index f) then Inr (Frame (take_rows f (nonzero kv)))
      else Inl LengthMismatch)"
    by (simp add: getitem_def getitem_bool_array_def check_bool_indexer_def)
next
  assume len: "length kv = length ki"
  show "getitem f (KBoolSeries ki kv) =
        (if ki = index f then Inr (Frame (take_rows f (nonzero kv)))
         else if set (index f) \<subseteq> set ki
         then Inr (Frame (take_rows f (nonzero (map (\<lambda>l. kv ! nat (first_pos ki l)) (index f)))))
         else Inl UnalignableBooleanKey)"
  proof (cases "ki = index f")
    case True
    then show ?thesis using len
      by (simp add: getitem_def getitem_bool_array_def check_bool_indexer_def)
  next
    case False
    then show ?thesis
      using check_bool_indexer_reindex [OF False len]
      by (simp add: getitem_def getitem_bool_array_def)
  qed
next
  assume "wf_frame f \<and> length kv = length (index f)"
  then show "take_rows f (nonzero kv) =
        \<lparr>index = map snd (filter fst (zip kv (index f))),
         data = map (\<lambda>(c, col). (c, col\<lparr>vals := map snd (filter fst (zip kv (vals col)))\<rparr>))
                    (data f)\<rparr>"
    using take_rows_nonzero by blast
qed

theorem getitem_bool_key_witness:
  "getitem \<lparr>index = [0::nat, 1, 2], data = [(''a'', \<lparr>dtype = Int64, vals = [Num 10, Num 20, Num 30]\<rparr>)]\<rparr>
           (KBoolArray [True, False, True])
     = Inr (Frame \<lparr>index = [0, 2], data = [(''a'', \<lparr>dtype = Int64, vals = [Num 10, Num 30]\<rparr>)]\<rparr>) \<and>
   getitem \<lparr>index = [0::nat, 1, 2], data = [(''a'', \<lparr>dtype = Int64, vals = [Num 10, Num 20, Num 30]\<rparr>)]\<rparr>
           (KBoolArray [True, False])
     = Inl LengthMismatch \<and>
   getitem \<lparr>index = [0::nat, 1, 2], data = [(''a'', \<lparr>dtype = Int64, vals = [Num 10, Num 20, Num 30]\<rparr>)]\<rparr>
           (KBoolSeries [2, 1, 0, 7] [True, False, False, True])
     = Inr (Frame \<lparr>index = [2], data = [(''a'', \<lparr>dtype = Int64, vals = [Num 30]\<rparr>)]\<rparr>) \<and>
   getitem \<lparr>index = [0::nat, 1, 2], data = [(''a'', \<lparr>dtype = Int64, vals = [Num 10, Num 20, Num 30]\<rparr>)]\<rparr>
           (KBoolSeries [0, 1] [True, False])
     = Inl UnalignableBooleanKey"
proof -
  let ?F = "\<lparr>index = [0::nat, 1, 2], data = [(''a'', \<lparr>dtype = Int64, vals = [Num 10, Num 20, Num 30]\<rparr>)]\<rparr>"
  have 1: "getitem ?F (KBoolArray [True, False, True]) = Inr (Frame (take_rows ?F (nonzero [True, False, True])))"
    using getitem_bool_key [of ?F "[True, False, True]" "[]"] by simp
  have 2: "getitem ?F (KBoolArray [True, False]) = Inl LengthMismatch"
    using getitem_bool_key [of ?F "[True, False]" "[]"] by simp
  have 3: "getitem ?F (KBoolSeries [2, 1, 0, 7] [True, False, False, True]) =
           Inr (Frame (take_rows ?F (nonzero (map (\<lambda>l. [True, False, False, True] ! nat (first_pos [2, 1, 0, 7] l)) (index ?F)))))"
    using getitem_bool_key [of ?F "[True, False, False, True]" "[2, 1, 0, 7]"] by simp
  have 4: "getitem ?F (KBoolSeries [0, 1] [True, False]) = Inl UnalignableBooleanKey"
    using getitem_bool_key [of ?F "[True, False]" "[0, 1]"] by simp
  have e1: "take_rows ?F (nonzero [True, False, True]) =
            \<lparr>index = [0, 2], data = [(''a'', \<lparr>dtype = Int64, vals = [Num 10, Num 30]\<rparr>)]\<rparr>"
    by code_simp
  have e3: "take_rows ?F (nonzero (map (\<lambda>l. [True, False, False, True] ! nat (first_pos [2, 1, 0, 7] l)) (index ?F))) =
            \<lparr>index = [2], data = [(''a'', \<lparr>dtype = Int64, vals = [Num 30]\<rparr>)]\<rparr>"
    by code_simp
  show ?thesis
    unfolding 1 2 3 4 e1 e3 by simp
qed

text \<open>
  The claim as stated makes every key of the row index's length a direct mask. A Series
  key of that length with the labels in another order is reindexed first: it selects the
  row labelled 1, where the direct mask selects the row at position 0.
\<close>

theorem getitem_bool_series_same_length_counterexample:
  "getitem \<lparr>index = [0::nat, 1], data = [(''a'', \<lparr>dtype = Int64, vals = [Num 10, Num 20]\<rparr>)]\<rparr>
           (KBoolSeries [1, 0] [True, False])
     = Inr (Frame \<lparr>index = [1], data = [(''a'', \<lparr>dtype = Int64, vals = [Num 20]\<rparr>)]\<rparr>) \<and>
   length [True, False] =
     length (index \<lparr>index = [0::nat, 1], data = [(''a'', \<lparr>dtype = Int64, vals = [Num 10, Num 20]\<rparr>)]\<rparr>) \<and>
   take_rows \<lparr>index = [0::nat, 1], data = [(''a'', \<lparr>dtype = Int64, vals = [Num 10, Num 20]\<rparr>)]\<rparr>
             (nonzero [True, False])
     = \<lparr>index = [0], data = [(''a'', \<lparr>dtype = Int64, vals = [Num 10]\<rparr>)]\<rparr>"
  by code_simp

text \<open>
  Claim C10. A frame selector with no element (no rows or no columns), of any dtype, does
  not fail with the boolean-only error and goes to \<^verbatim>\<open>self.where(key)\<close>; the check is
  made exactly when the selector has at least one element.
\<close>

theorem getitem_frame_empty_selector:
  "(values_size k = 0 \<longrightarrow> getitem f (KFrame k) = Inr (Where f k)) \<and>
   (values_size k \<noteq> 0 \<longrightarrow>
      getitem f (KFrame k) =
        (if is_bool_dtype (values_dtype k) then Inr (Where f k) else Inl InvalidBooleanFrame))"
  by (simp add: getitem_def getitem_frame_def)

theorem getitem_frame_empty_selector_witness:
  "values_size \<lparr>index = ([]::nat list), data = [(''a'', \<lparr>dtype = Float64, vals = []\<rparr>)]\<rparr> = 0 \<and>
   \<not> is_bool_dtype (values_dtype \<lparr>index = ([]::nat list), data = [(''a'', \<lparr>dtype = Float64, vals = []\<rparr>)]\<rparr>) \<and>
   getitem \<lparr>index = [0::nat], data = [(''a'', \<lparr>dtype = Int64, vals = [Num 10]\<rparr>)]\<rparr>
           (KFrame \<lparr>index = [], data = [(''a'', \<lparr>dtype = Float64, vals = []\<rparr>)]\<rparr>)
     = Inr (Where \<lparr>index = [0], data = [(''a'', \<lparr>dtype = Int64, vals = [Num 10]\<rparr>)]\<rparr>
                  \<lparr>index = [], data = [(''a'', \<lparr>dtype = Float64, vals = []\<rparr>)]\<rparr>) \<and>
   getitem \<lparr>index = [0::nat], data = [(''a'', \<lparr>dtype = Int64, vals = [Num 10]\<rparr>)]\<rparr>
           (KFrame \<lparr>index = [0], data = [(''a'', \<lparr>dtype = Float64, vals = [Num 1]\<rparr>)]\<rparr>)
     = Inl InvalidBooleanFrame"
proof -
  let ?F = "\<lparr>index = [0::nat], data = [(''a'', \<lparr>dtype = Int64, vals = [Num 10]\<rparr>)]\<rparr>"
  let ?E = "\<lparr>index = ([]::nat list), data = [(''a'', \<lparr>dtype = Float64, vals = []\<rparr>)]\<rparr>"
  let ?K = "\<lparr>index = [0::nat], data = [(''a'', \<lparr>dtype = Float64, vals = [Num 1]\<rparr>)]\<rparr>"
  have s: "values_size ?E = 0" by (simp add: values_size_def)
  have b: "\<not> is_bool_dtype (values_dtype ?E)"
    by (simp add: values_dtype_def find_common_type_def is_bool_dtype_def)
  have s': "values_size ?K \<noteq> 0" by (simp add: values_size_def)
  have b': "\<not> is_bool_dtype (values_dtype ?K)"
    by (simp add: values_dtype_def find_common_type_def is_bool_dtype_def)
  have 1: "getitem ?F (KFrame ?E) = Inr (Where ?F ?E)"
    using getitem_frame_empty_selector [of ?E ?F] s by blast
  have 2: "getitem ?F (KFrame ?K) = Inl InvalidBooleanFrame"
    using getitem_frame_empty_selector [of ?K ?F] s' b' by simp
  show ?thesis by (intro conjI s b 1 2)
qed

section \<open>Properties of alignment\<close>

lemma intersection_idx_filter: "intersection_idx l r = filter (\<lambda>x. x \<in> set r) l"
  by (induction l) auto

lemma join_index_inner: "join_index JInner l r = filter (\<lambda>x. x \<in> set r) l"
  by (simp add: join_index_def intersection_idx_filter)

lemma apply_plan_index:
  "index (apply_plan f rows cols (reindex_indexer (index f) rows, ci)) = rows"
  by (simp add: apply_plan_def reindex_columns_with_index reindex_rows_with_index
      reindex_indexer_def)

lemma apply_plan_columns:
  "columns (apply_plan f rows cols (ri, reindex_indexer (columns f) cols)) = cols"
  unfolding apply_plan_def
  by (rule reindex_columns_with_columns)
     (simp_all add: reindex_indexer_def reindex_rows_with_columns length_get_indexer)

lemma apply_plan_wf:
  "wf_frame f \<Longrightarrow> wf_frame (apply_plan f rows cols (reindex_indexer (index f) rows, ci))"
  unfolding apply_plan_def
  by (intro reindex_columns_with_wf reindex_rows_with_wf)
     (simp_all add: reindex_indexer_def length_get_indexer)

lemma align_result:
  assumes "align pol A B = Inr (L, R)"
  shows "L = apply_plan A (join_index pol (index A) (index B))
                 (join_index pol (columns A) (columns B))
                 (reindex_indexer (index A) (join_index pol (index A) (index B)),
                  reindex_indexer (columns A) (join_index pol (columns A) (columns B)))"
    and "R = apply_plan B (join_index pol (index A) (index B))
                 (join_index pol (columns A) (columns B))
                 (reindex_indexer (index B) (join_index pol (index A) (index B)),
                  reindex_indexer (columns B) (join_index pol (columns A) (columns B)))"
proof -
  let ?amb = "index A \<noteq> index B \<and> columns A \<noteq> columns B \<and>
         \<not> (distinct (index A) \<and> distinct (index B) \<and>
            distinct (columns A) \<and> distinct (columns B))"
  have na: "\<not> ?amb"
  proof
    assume ?amb
    then have "align pol A B = Inl AmbiguousAlignment"
      unfolding align_def make_join_plan_def by simp
    with assms show False by simp
  qed
  then have "align pol A B =
     Inr (apply_plan A (join_index pol (index A) (index B))
                 (join_index pol (columns A) (columns B))
                 (reindex_indexer (index A) (join_index pol (index A) (index B)),
                  reindex_indexer (columns A) (join_index pol (columns A) (columns B))),
          apply_plan B (join_index pol (index A) (index B))
                 (join_index pol (columns A) (columns B))
                 (reindex_indexer (index B) (join_index pol (index A) (index B)),
                  reindex_indexer (columns B) (join_index pol (columns A) (columns B))))"
    unfolding align_def make_join_plan_def by (simp add: Let_def)
  with assms show
    "L = apply_plan A (join_index pol (index A) (index B))
                 (join_index pol (columns A) (columns B))
                 (reindex_indexer (index A) (join_index pol (index A) (index B)),
                  reindex_indexer (columns A) (join_index pol (columns A) (columns B)))"
    "R = apply_plan B (join_index pol (index A) (index B))
                 (join_index pol (columns A) (columns B))
                 (reindex_indexer (index B) (join_index pol (index A) (index B)),
                  reindex_indexer (columns B) (join_index pol (columns A) (columns B)))"
    by simp_all
qed

lemma align_props:
  assumes "align pol A B = Inr (L, R)"
  shows "index L = join_index pol (index A) (index B)"
    and "index R = join_index pol (index A) (index B)"
    and "columns L = join_index pol (columns A) (columns B)"
    and "columns R = join_index pol (columns A) (columns B)"
    and "wf_frame A \<Longrightarrow> wf_frame L"
    and "wf_frame B \<Longrightarrow> wf_frame R"
proof -
  note lr = align_result [OF assms]
  show "index L = join_index pol (index A) (index B)"
    by (subst lr(1)) (rule apply_plan_index)
  show "index R = join_index pol (index A) (index B)"
    by (subst lr(2)) (rule apply_plan_index)
  show "columns L = join_index pol (columns A) (columns B)"
    by (subst lr(1)) (rule apply_plan_columns)
  show "columns R = join_index pol (columns A) (columns B)"
    by (subst lr(2)) (rule apply_plan_columns)
  show "wf_frame A \<Longrightarrow> wf_frame L"
    by (subst lr(1)) (rule apply_plan_wf)
  show "wf_frame B \<Longrightarrow> wf_frame R"
    by (subst lr(2)) (rule apply_plan_wf)
qed

lemma align_succeeds:
  assumes "index A = index B \<or> columns A = columns B \<or>
           (distinct (index A) \<and> distinct (index B) \<and> distinct (columns A) \<and> distinct (columns B))"
  shows "\<exists>L R. align pol A B = Inr (L, R)"
  using assms by (auto simp: align_def make_join_plan_def Let_def)

text \<open>
  Claim C2, as the Aligner has it. For every pair of tables \<open>A\<close> and \<open>B\<close> whose row
  indexes are equal, or whose column indexes are equal, or whose four axis indexes are all
  free of repeated labels, \<^verbatim>\<open>align(A, B, 'inner')\<close> returns, and the row index of both
  aligned frames is the list of the labels of \<open>A\<close>'s row index that occur in \<open>B\<close>'s row
  index, in \<open>A\<close>'s order, for monotonic and non-monotonic \<open>A\<close> alike. For every other
  pair the alignment fails with AmbiguousAlignment.
\<close>

theorem align_inner_left_order:
  "(index A = index B \<or> columns A = columns B \<or>
    (distinct (index A) \<and> distinct (index B) \<and> distinct (columns A) \<and> distinct (columns B))
      \<longrightarrow> (\<exists>L R. align JInner A B = Inr (L, R) \<and>
                 index L = filter (\<lambda>l. l \<in> set (index B)) (index A) \<and>
                 index R = filter (\<lambda>l. l \<in> set (index B)) (index A))) \<and>
   (\<not> (index A = index B \<or> columns A = columns B \<or>
       (distinct (index A) \<and> distinct (index B) \<and> distinct (columns A) \<and> distinct (columns B)))
      \<longrightarrow> align JInner A B = Inl AmbiguousAlignment)"
proof (intro conjI impI)
  assume "index A = index B \<or> columns A = columns B \<or>
    (distinct (index A) \<and> distinct (index B) \<and> distinct (columns A) \<and> distinct (columns B))"
  from align_succeeds [OF this, of JInner] obtain L R where a: "align JInner A B = Inr (L, R)"
    by blast
  from align_props(1,2) [OF a] have
    "index L = filter (\<lambda>l. l \<in> set (index B)) (index A)"
    "index R = filter (\<lambda>l. l \<in> set (index B)) (index A)"
    by (simp_all add: join_index_inner)
  with a show "\<exists>L R. align JInner A B = Inr (L, R) \<and>
                 index L = filter (\<lambda>l. l \<in> set (index B)) (index A) \<and>
                 index R = filter (\<lambda>l. l \<in> set (index B)) (index A)"
    by blast
next
  assume "\<not> (index A = index B \<or> columns A = columns B \<or>
       (distinct (index A) \<and> distinct (index B) \<and> distinct (columns A) \<and> distinct (columns B)))"
  then show "align JInner A B = Inl AmbiguousAlignment"
    by (simp add: align_def make_join_plan_def)
qed

theorem align_inner_left_order_witness:
  "columns \<lparr>index = [3::nat, 1, 2],
            data = [(''x'', \<lparr>dtype = Int64, vals = [Num 30, Num 10, Num 20]\<rparr>)]\<rparr> =
   columns \<lparr>index = [2::nat, 3], data = [(''x'', \<lparr>dtype = Int64, vals = [Num 2, Num 3]\<rparr>)]\<rparr> \<and>
   align JInner
     \<lparr>index = [3::nat, 1, 2], data = [(''x'', \<lparr>dtype = Int64, vals = [Num 30, Num 10, Num 20]\<rparr>)]\<rparr>
     \<lparr>index = [2::nat, 3], data = [(''x'', \<lparr>dtype = Int64, vals = [Num 2, Num 3]\<rparr>)]\<rparr>
   = Inr (\<lparr>index = [3, 2], data = [(''x'', \<lparr>dtype = Int64, vals = [Num 30, Num 20]\<rparr>)]\<rparr>,
          \<lparr>index = [3, 2], data = [(''x'', \<lparr>dtype = Int64, vals = [Num 3, Num 2]\<rparr>)]\<rparr>) \<and>
   filter (\<lambda>l. l \<in> set [2::nat, 3]) [3, 1, 2] = [3, 2]"
proof -
  let ?A = "\<lparr>index = [3::nat, 1, 2], data = [(''x'', \<lparr>dtype = Int64, vals = [Num 30, Num 10, Num 20]\<rparr>)]\<rparr>"
  let ?B = "\<lparr>index = [2::nat, 3], data = [(''x'', \<lparr>dtype = Int64, vals = [Num 2, Num 3]\<rparr>)]\<rparr>"
  let ?L = "\<lparr>index = [3::nat, 2], data = [(''x'', \<lparr>dtype = Int64, vals = [Num 30, Num 20]\<rparr>)]\<rparr>"
  let ?R = "\<lparr>index = [3::nat, 2], data = [(''x'', \<lparr>dtype = Int64, vals = [Num 3, Num 2]\<rparr>)]\<rparr>"
  have c: "columns ?A = columns ?B" by (simp add: columns_def)
  have a: "align JInner ?A ?B = Inr (?L, ?R)"
    by code_simp
  from align_inner_left_order [of ?A ?B] c obtain L R where
    lr: "align JInner ?A ?B = Inr (L, R)"
      "index L = filter (\<lambda>l. l \<in> set (index ?B)) (index ?A)"
    by blast
  from lr(1) a have "L = ?L" by simp
  with lr(2) have f: "filter (\<lambda>l. l \<in> set [2::nat, 3]) [3, 1, 2] = [3, 2]" by simp
  show ?thesis by (intro conjI c a f)
qed

text \<open>
  The claim as stated covers every pair of tables. Here both axes need alignment and the
  row index of \<open>A\<close> repeats a label: the Aligner gives no result index.
\<close>

theorem align_inner_ambiguous_counterexample:
  "align JInner
     \<lparr>index = [1::nat, 1], data = [(''x'', \<lparr>dtype = Int64, vals = [Num 10, Num 20]\<rparr>)]\<rparr>
     \<lparr>index = [1::nat, 2], data = [(''y'', \<lparr>dtype = Int64, vals = [Num 1, Num 2]\<rparr>)]\<rparr>
   = Inl AmbiguousAlignment"
  by code_simp


section \<open>Properties of \<^verbatim>\<open>combine\<close> and \<^verbatim>\<open>combine_first\<close>\<close>

lemma join_index_same: "join_index pol l l = l"
  by (simp add: join_index_def)

lemma align_self: "align pol A A = Inr (A, A)"
  by (simp add: align_def make_join_plan_def join_index_same reindex_indexer_def apply_plan_def
      reindex_rows_with_def reindex_columns_with_def)

lemma np_where_same: "np_where (map isna xs) xs xs = Inr xs"
proof -
  have "map (\<lambda>i. if map isna xs ! i then xs ! i else xs ! i) [0..<length xs] = xs"
    by (simp add: map_nth)
  then show ?thesis
    using np_where_same_length [of "map isna xs" "length xs" xs xs] by simp
qed

lemma find_common_type_same: "find_common_type [d, d] = d"
  by (simp add: find_common_type_def common2_def)

lemma maybe_downcast_same: "maybe_downcast_to_dtype x (dtype x) = x"
  by (simp add: maybe_downcast_to_dtype_def)

lemma combine_column_self:
  assumes "distinct (columns A)" "map_of (data A) c = Some x"
  shows "\<exists>b. combine_column A A A (combiner A) None False c = Inr (x, b)"
proof -
  have g: "getitem A (KLabel c) = Inr (Column \<lparr>name = c, sindex = index A, scol = x\<rparr>)"
    using getitem_label_unique [OF assms] .
  have cin: "c \<in> set (columns A)"
    using assms(2) unfolding columns_def by (metis map_of_eq_None_iff option.distinct(1) set_map)
  have f: "combiner A \<lparr>name = c, sindex = index A, scol = x\<rparr> \<lparr>name = c, sindex = index A, scol = x\<rparr>
           = Inr x"
    using cin by (simp add: combiner_def find_common_type_same np_where_same)
  show ?thesis
    using g cin f
    by (auto simp: combine_column_def Let_def find_common_type_same maybe_downcast_same)
qed

lemma combine_loop_ok:
  assumes "\<And>c. c \<in> set cs \<Longrightarrow> \<exists>b. step c = Inr (g c, b)"
  shows "\<exists>calls'. combine_loop step cs result calls =
           Inr (\<lambda>c. if c \<in> set cs then Some (g c) else result c, calls')"
  using assms
proof (induction cs arbitrary: result calls)
  case Nil
  then show ?case by simp
next
  case (Cons col rest)
  from Cons.prems [of col] obtain b where b: "step col = Inr (g col, b)" by auto
  let ?calls = "if b then calls @ [col] else calls"
  have eq: "combine_loop step (col # rest) result calls =
            combine_loop step rest (result(col \<mapsto> g col)) ?calls"
    using b by simp
  have "\<And>c. c \<in> set rest \<Longrightarrow> \<exists>b. step c = Inr (g c, b)"
    using Cons.prems by simp
  from Cons.IH [of "result(col \<mapsto> g col)" ?calls, OF this] obtain calls' where
    ih: "combine_loop step rest (result(col \<mapsto> g col)) ?calls =
          Inr (\<lambda>c. if c \<in> set rest then Some (g c) else (result(col \<mapsto> g col)) c, calls')"
    by blast
  have fe: "(\<lambda>c. if c \<in> set rest then Some (g c) else (result(col \<mapsto> g col)) c) =
            (\<lambda>c. if c \<in> set (col # rest) then Some (g c) else result c)"
    by (rule ext) simp
  show ?case
    unfolding eq ih fe by blast
qed

lemma map_lookup_distinct:
  assumes "distinct (map fst xs)"
  shows "map (\<lambda>c. (c, case (if c \<in> set (map fst xs) then map_of xs c else None) of
                        None \<Rightarrow> d | Some v \<Rightarrow> v)) (map fst xs) = xs"
proof -
  have "(fst p, case (if fst p \<in> set (map fst xs) then map_of xs (fst p) else None) of
                  None \<Rightarrow> d | Some v \<Rightarrow> v) = p" if "p \<in> set xs" for p
  proof -
    have "map_of xs (fst p) = Some (snd p)"
      using that assms by (metis map_of_is_SomeI prod.collapse)
    moreover have "fst p \<in> set (map fst xs)" using that by simp
    ultimately show ?thesis by simp
  qed
  then show ?thesis
    by (simp add: comp_def map_idI)
qed

lemma frame_from_dict_self:
  assumes "distinct (columns A)" "wf_frame A"
  shows "frame_from_dict (\<lambda>c. if c \<in> set (columns A) then map_of (data A) c else None)
           (index A) (columns A) = Inr A"
proof -
  have d: "map (\<lambda>c. (c, case (if c \<in> set (columns A) then map_of (data A) c else None) of
                        None \<Rightarrow> na_column (length (index A)) | Some v \<Rightarrow> v)) (columns A) = data A"
    using map_lookup_distinct [of "data A"] assms(1) by (simp add: columns_def)
  have l: "\<not> list_ex (\<lambda>(c, v). length (vals v) \<noteq> length (index A)) (data A)"
    using assms(2) by (auto simp: wf_frame_def list_all_iff list_ex_iff)
  show ?thesis
    unfolding frame_from_dict_def Let_def d using l by simp
qed

text \<open>
  Claim C3, as the code has it. For every well-formed table \<open>A\<close> whose column labels
  are unique, \<^verbatim>\<open>A.combine_first(A)\<close> is \<open>A\<close>: the same row index, the same column
  index and the same columns, dtypes and values.
\<close>

theorem combine_first_self:
  assumes "wf_frame A" "distinct (columns A)"
  shows "combine_first A A = Inr A"
proof (cases "empty A")
  case True
  then show ?thesis
    by (simp add: combine_first_def combine_def combine_traced_def align_self)
next
  case False
  let ?g = "\<lambda>c. case map_of (data A) c of None \<Rightarrow> na_column 0 | Some v \<Rightarrow> v"
  let ?step = "combine_column A A A (combiner A) None False"
  have step: "\<exists>b. ?step c = Inr (?g c, b)" if "c \<in> set (columns A)" for c
  proof -
    from that obtain x where x: "map_of (data A) c = Some x"
      using lookup_in_columns by metis
    with combine_column_self [OF assms(2) x] show ?thesis by simp
  qed
  from combine_loop_ok [of "columns A" ?step ?g Map.empty "[]"] step obtain calls' where
    loop: "combine_loop ?step (columns A) Map.empty [] =
           Inr (\<lambda>c. if c \<in> set (columns A) then Some (?g c) else None, calls')"
    by blast
  have dict: "(\<lambda>c. if c \<in> set (columns A) then Some (?g c) else None) =
              (\<lambda>c. if c \<in> set (columns A) then map_of (data A) c else None)"
  proof (rule ext)
    fix c
    show "(if c \<in> set (columns A) then Some (?g c) else None) =
          (if c \<in> set (columns A) then map_of (data A) c else None)"
      using lookup_in_columns [of c A] by auto
  qed
  have u: "union_idx (columns A) (columns A) = columns A" by (simp add: union_idx_def)
  show ?thesis
    using False loop frame_from_dict_self [OF assms(2,1)]
    by (simp add: combine_first_def combine_def combine_traced_def align_self u dict)
qed

theorem combine_first_self_witness:
  "wf_frame \<lparr>index = [2::nat, 1], data = [(''y'', \<lparr>dtype = Float64, vals = [Num 1, NA]\<rparr>),
                                           (''x'', \<lparr>dtype = Float64, vals = [NA, NA]\<rparr>)]\<rparr> \<and>
   distinct (columns \<lparr>index = [2::nat, 1], data = [(''y'', \<lparr>dtype = Float64, vals = [Num 1, NA]\<rparr>),
                                           (''x'', \<lparr>dtype = Float64, vals = [NA, NA]\<rparr>)]\<rparr>) \<and>
   combine_first \<lparr>index = [2::nat, 1], data = [(''y'', \<lparr>dtype = Float64, vals = [Num 1, NA]\<rparr>),
                                           (''x'', \<lparr>dtype = Float64, vals = [NA, NA]\<rparr>)]\<rparr>
                 \<lparr>index = [2::nat, 1], data = [(''y'', \<lparr>dtype = Float64, vals = [Num 1, NA]\<rparr>),
                                           (''x'', \<lparr>dtype = Float64, vals = [NA, NA]\<rparr>)]\<rparr>
     = Inr \<lparr>index = [2::nat, 1], data = [(''y'', \<lparr>dtype = Float64, vals = [Num 1, NA]\<rparr>),
                                           (''x'', \<lparr>dtype = Float64, vals = [NA, NA]\<rparr>)]\<rparr>"
proof -
  let ?A = "\<lparr>index = [2::nat, 1], data = [(''y'', \<lparr>dtype = Float64, vals = [Num 1, NA]\<rparr>),
                                           (''x'', \<lparr>dtype = Float64, vals = [NA, NA]\<rparr>)]\<rparr>"
  have w: "wf_frame ?A" and d: "distinct (columns ?A)"
    by (simp_all add: wf_frame_def columns_def)
  show ?thesis by (intro conjI w d combine_first_self [OF w d])
qed

text \<open>
  The claim as stated covers every table. With a repeated column label,
  \<^verbatim>\<open>this[col]\<close> is a frame, \<^verbatim>\<open>series.dtype\<close> does not exist, and the call fails.
\<close>

theorem combine_first_duplicate_columns_counterexample:
  "combine_first \<lparr>index = [0::nat], data = [(''a'', \<lparr>dtype = Int64, vals = [Num 1]\<rparr>),
                                           (''a'', \<lparr>dtype = Int64, vals = [Num 2]\<rparr>)]\<rparr>
                 \<lparr>index = [0::nat], data = [(''a'', \<lparr>dtype = Int64, vals = [Num 1]\<rparr>),
                                           (''a'', \<lparr>dtype = Int64, vals = [Num 2]\<rparr>)]\<rparr>
     = Inl AttributeError \<and>
   combine_first \<lparr>index = [0::nat], data = [(''a'', \<lparr>dtype = Int64, vals = [Num 1]\<rparr>),
                                           (''a'', \<lparr>dtype = Int64, vals = [Num 2]\<rparr>)]\<rparr>
                 \<lparr>index = [0::nat], data = [(''a'', \<lparr>dtype = Int64, vals = [Num 1]\<rparr>),
                                           (''a'', \<lparr>dtype = Int64, vals = [Num 2]\<rparr>)]\<rparr>
     \<noteq> Inr \<lparr>index = [0::nat], data = [(''a'', \<lparr>dtype = Int64, vals = [Num 1]\<rparr>),
                                       (''a'', \<lparr>dtype = Int64, vals = [Num 2]\<rparr>)]\<rparr>"
  by code_simp

subsection \<open>The column loop\<close>

lemma combine_loop_result:
  assumes "combine_loop step cs result calls = Inr (res, calls')"
  shows "(\<forall>c \<in> set cs. \<exists>v b. step c = Inr (v, b) \<and> res c = Some v) \<and>
         set calls' = set calls \<union> {c \<in> set cs. \<exists>v. step c = Inr (v, True)}"
  using assms
proof (induction cs arbitrary: result calls)
  case Nil
  then show ?case by simp
next
  case (Cons col rest)
  from Cons.prems obtain arr called where st: "step col = Inr (arr, called)"
    by (cases "step col") auto
  let ?calls = "if called then calls @ [col] else calls"
  have rec: "combine_loop step rest (result(col \<mapsto> arr)) ?calls = Inr (res, calls')"
    using Cons.prems st by simp
  note ih = Cons.IH [OF rec]
  have keep: "res col = Some arr"
  proof (cases "col \<in> set rest")
    case True
    with ih obtain v b where "step col = Inr (v, b)" "res col = Some v" by blast
    with st show ?thesis by simp
  next
    case False
    have "res c = result' c" if "combine_loop step xs result' calls0 = Inr (res, calls1)" "c \<notin> set xs"
      for xs result' calls0 calls1 c
      using that
    proof (induction xs arbitrary: result' calls0)
      case Nil
      then show ?case by simp
    next
      case (Cons a xs)
      then show ?case
        by (cases "step a") (auto split: prod.splits)
    qed
    from this [OF rec False] show ?thesis by simp
  qed
  have 1: "\<forall>c \<in> set (col # rest). \<exists>v b. step c = Inr (v, b) \<and> res c = Some v"
    using ih st keep by auto
  have 2: "set calls' = set calls \<union> {c \<in> set (col # rest). \<exists>v. step c = Inr (v, True)}"
    using ih st by (cases called) auto
  show ?case using 1 2 by blast
qed

lemma map_of_tabulate:
  "c \<in> set cs \<Longrightarrow> map_of (map (\<lambda>k. (k, h k)) cs) c = Some (h c)"
  by (induction cs) auto

lemma frame_from_dict_result:
  assumes "frame_from_dict result idx cols = Inr res"
  shows "index res = idx" "columns res = cols"
    "c \<in> set cols \<Longrightarrow>
       map_of (data res) c = Some (case result c of None \<Rightarrow> na_column (length idx) | Some v \<Rightarrow> v)"
proof -
  have r: "res = \<lparr>index = idx,
                  data = map (\<lambda>k. (k, case result k of None \<Rightarrow> na_column (length idx) | Some v \<Rightarrow> v)) cols\<rparr>"
    using assms by (auto simp: frame_from_dict_def Let_def split: if_splits)
  show "index res = idx" by (simp add: r)
  show "columns res = cols" by (simp add: r columns_def comp_def)
  show "c \<in> set cols \<Longrightarrow>
       map_of (data res) c = Some (case result c of None \<Rightarrow> na_column (length idx) | Some v \<Rightarrow> v)"
    by (simp add: r map_of_tabulate)
qed

lemma join_outer_superset: "set l \<subseteq> set (join_index JOuter l r)"
  by (auto simp: join_index_def union_idx_def)



lemma astype_result: "astype col d = Inr c' \<Longrightarrow> c' = col\<lparr>dtype := d\<rparr>"
  by (auto simp: astype_def split: if_splits)

lemma combine_column_needs_columns:
  assumes "combine_column L this oth func fv ow c = Inr r"
  shows "\<exists>x y. getitem this (KLabel c) = Inr (Column x) \<and> getitem oth (KLabel c) = Inr (Column y)"
proof (cases "getitem this (KLabel c)")
  case (Inl e)
  then have "combine_column L this oth func fv ow c = Inl e"
    by (simp add: combine_column_def)
  with assms show ?thesis by simp
next
  case i1: (Inr item1)
  show ?thesis
  proof (cases "getitem oth (KLabel c)")
    case (Inl e)
    then have "combine_column L this oth func fv ow c = Inl e"
      using i1 by (simp add: combine_column_def)
    with assms show ?thesis by simp
  next
    case i2: (Inr item2)
    have bad1: "combine_column L this oth func fv ow c = Inl AttributeError"
      if "\<forall>x. item1 \<noteq> Column x"
      using that i1 i2 by (cases item1) (simp_all add: combine_column_def)
    have bad2: "combine_column L this oth func fv ow c = Inl AttributeError"
      if "item1 = Column x" "\<forall>y. item2 \<noteq> Column y" for x
      using that i1 i2 by (cases item2) (simp_all add: combine_column_def)
    from bad1 assms obtain x where x: "item1 = Column x" by fastforce
    from bad2 [OF x] assms obtain y where y: "item2 = Column y" by fastforce
    show ?thesis using i1 i2 x y by simp
  qed
qed

lemma combine_column_unfold:
  assumes "getitem this (KLabel c) = Inr (Column x)" "getitem oth (KLabel c) = Inr (Column y)"
    "c \<in> set (columns L)"
  shows "combine_column L this oth func None True c =
     (case (if dtype (scol x) \<noteq> find_common_type [dtype (scol x), dtype (scol y)]
            then astype (scol x) (find_common_type [dtype (scol x), dtype (scol y)])
            else Inr (scol x)) of
        Inl e \<Rightarrow> Inl e
      | Inr c1 \<Rightarrow>
         (case (if dtype (scol y) \<noteq> find_common_type [dtype (scol x), dtype (scol y)]
                then astype (scol y) (find_common_type [dtype (scol x), dtype (scol y)])
                else Inr (scol y)) of
            Inl e \<Rightarrow> Inl e
          | Inr c2 \<Rightarrow>
             (case func (x\<lparr>scol := c1\<rparr>) (y\<lparr>scol := c2\<rparr>) of
                Inl e \<Rightarrow> Inl e
              | Inr arr \<Rightarrow> Inr (maybe_downcast_to_dtype arr (dtype (scol x)), True))))"
  unfolding combine_column_def Let_def assms(1,2)
  using assms(3) by (simp split: sum.split)


lemma combine_column_promoted:
  assumes "combine_column L this oth func None True c = Inr (v, b)" "c \<in> set (columns L)"
  shows "\<exists>x y arr.
           getitem this (KLabel c) = Inr (Column x) \<and>
           getitem oth (KLabel c) = Inr (Column y) \<and>
           func (x\<lparr>scol := (scol x)\<lparr>dtype := find_common_type [dtype (scol x), dtype (scol y)]\<rparr>\<rparr>)
                (y\<lparr>scol := (scol y)\<lparr>dtype := find_common_type [dtype (scol x), dtype (scol y)]\<rparr>\<rparr>)
             = Inr arr \<and>
           v = maybe_downcast_to_dtype arr (dtype (scol x))"
proof -
  from combine_column_needs_columns [OF assms(1)] obtain x y where
    x: "getitem this (KLabel c) = Inr (Column x)" and y: "getitem oth (KLabel c) = Inr (Column y)"
    by blast
  let ?ct = "find_common_type [dtype (scol x), dtype (scol y)]"
  let ?c1 = "if dtype (scol x) \<noteq> ?ct then astype (scol x) ?ct else Inr (scol x)"
  let ?c2 = "if dtype (scol y) \<noteq> ?ct then astype (scol y) ?ct else Inr (scol y)"
  note body = combine_column_unfold [OF x y assms(2), of func, unfolded assms(1)]
  obtain c1 where c1: "?c1 = Inr c1"
    using body by (cases ?c1) simp_all
  obtain c2 where c2: "?c2 = Inr c2"
    using body c1 by (cases ?c2) simp_all
  obtain arr where arr: "func (x\<lparr>scol := c1\<rparr>) (y\<lparr>scol := c2\<rparr>) = Inr arr"
    using body c1 c2 by (cases "func (x\<lparr>scol := c1\<rparr>) (y\<lparr>scol := c2\<rparr>)") simp_all
  have v: "v = maybe_downcast_to_dtype arr (dtype (scol x))"
    using body c1 c2 arr by simp
  have e1: "c1 = (scol x)\<lparr>dtype := ?ct\<rparr>"
  proof (cases "dtype (scol x) = ?ct")
    case True
    with c1 show ?thesis by simp
  next
    case False
    with c1 show ?thesis by (simp add: astype_result)
  qed
  have e2: "c2 = (scol y)\<lparr>dtype := ?ct\<rparr>"
  proof (cases "dtype (scol y) = ?ct")
    case True
    with c2 show ?thesis by simp
  next
    case False
    with c2 show ?thesis by (simp add: astype_result)
  qed
  show ?thesis using x y arr v e1 e2 by blast
qed

lemma union_idx_same: "union_idx l l = l"
  by (simp add: union_idx_def)

lemma combine_traced_loop:
  assumes "align JOuter L R = Inr (this, oth)"
    and "\<not> (empty oth \<and> length (index this) = length (index L))"
    and "\<not> (empty L \<and> length (index oth) = length (index R))"
    and "combine_traced L R func fv ow = Inr (res, calls)"
  shows "\<exists>result. combine_loop (combine_column L this oth func fv ow) (columns this) Map.empty []
                     = Inr (result, calls) \<and>
                  frame_from_dict result (index this) (columns this) = Inr res"
proof -
  have cols: "columns oth = columns this"
    using align_props(3,4) [OF assms(1)] by simp
  let ?loop = "combine_loop (combine_column L this oth func fv ow) (columns this) Map.empty []"
  have ct: "combine_traced L R func fv ow =
        (case ?loop of
           Inl e \<Rightarrow> Inl e
         | Inr (result, calls) \<Rightarrow>
             (case frame_from_dict result (index this) (columns this) of
                Inl e \<Rightarrow> Inl e
              | Inr r \<Rightarrow> Inr (r, calls)))"
    using assms(2,3) by (auto simp: combine_traced_def assms(1) Let_def cols union_idx_same)
  note a4 = assms(4) [unfolded ct]
  obtain result calls0 where loop: "?loop = Inr (result, calls0)"
    using a4 by (cases ?loop) auto
  obtain r where fr: "frame_from_dict result (index this) (columns this) = Inr r"
    using a4 by (cases "frame_from_dict result (index this) (columns this)") (auto simp: loop)
  have "r = res" "calls0 = calls"
    using a4 by (simp_all add: loop fr)
  with loop fr show ?thesis by blast
qed

text \<open>
  Claim C4, as the code has it. For a call \<^verbatim>\<open>combine(left, right, func)\<close> that returns
  through the column loop (neither empty-table shortcut applies) and a column present in
  both inputs: the two aligned columns are promoted to their common type, \<open>func\<close> is
  applied to the promoted columns, and the result is downcast to the dtype of the aligned
  left column whenever no precision is lost by doing so.
\<close>

theorem combine_downcasts_to_left_dtype:
  assumes "align JOuter L R = Inr (this, oth)"
    and "\<not> (empty oth \<and> length (index this) = length (index L))"
    and "\<not> (empty L \<and> length (index oth) = length (index R))"
    and "combine L R func None True = Inr res"
    and "c \<in> set (columns L)" "c \<in> set (columns R)"
  shows "\<exists>x y arr.
           getitem this (KLabel c) = Inr (Column x) \<and>
           getitem oth (KLabel c) = Inr (Column y) \<and>
           func (x\<lparr>scol := (scol x)\<lparr>dtype := find_common_type [dtype (scol x), dtype (scol y)]\<rparr>\<rparr>)
                (y\<lparr>scol := (scol y)\<lparr>dtype := find_common_type [dtype (scol x), dtype (scol y)]\<rparr>\<rparr>)
             = Inr arr \<and>
           map_of (data res) c = Some (maybe_downcast_to_dtype arr (dtype (scol x)))"
proof -
  from assms(4) obtain calls where tr: "combine_traced L R func None True = Inr (res, calls)"
    by (cases "combine_traced L R func None True") (auto simp: combine_def)
  from combine_traced_loop [OF assms(1,2,3) tr] obtain result where
    loop: "combine_loop (combine_column L this oth func None True) (columns this) Map.empty []
             = Inr (result, calls)"
    and fr: "frame_from_dict result (index this) (columns this) = Inr res"
    by blast
  have cin: "c \<in> set (columns this)"
    using align_props(3) [OF assms(1)] join_outer_superset [of "columns L" "columns R"] assms(5)
    by auto
  from combine_loop_result [OF loop] cin obtain v b where
    st: "combine_column L this oth func None True c = Inr (v, b)" and rc: "result c = Some v"
    by blast
  have "map_of (data res) c = Some v"
    using frame_from_dict_result(3) [OF fr cin] rc by simp
  with combine_column_promoted [OF st assms(5)] show ?thesis by blast
qed

theorem combine_downcasts_to_left_dtype_witness:
  "align JOuter \<lparr>index = [0::nat], data = [(''a'', \<lparr>dtype = Int64, vals = [Num 1]\<rparr>)]\<rparr>
                \<lparr>index = [0::nat], data = [(''a'', \<lparr>dtype = Float64, vals = [Num 2]\<rparr>)]\<rparr>
     = Inr (\<lparr>index = [0::nat], data = [(''a'', \<lparr>dtype = Int64, vals = [Num 1]\<rparr>)]\<rparr>,
            \<lparr>index = [0::nat], data = [(''a'', \<lparr>dtype = Float64, vals = [Num 2]\<rparr>)]\<rparr>) \<and>
   combine \<lparr>index = [0::nat], data = [(''a'', \<lparr>dtype = Int64, vals = [Num 1]\<rparr>)]\<rparr>
           \<lparr>index = [0::nat], data = [(''a'', \<lparr>dtype = Float64, vals = [Num 2]\<rparr>)]\<rparr>
           take_right None True
     = Inr \<lparr>index = [0::nat], data = [(''a'', \<lparr>dtype = Int64, vals = [Num 2]\<rparr>)]\<rparr> \<and>
   map_of (data \<lparr>index = [0::nat], data = [(''a'', \<lparr>dtype = Int64, vals = [Num 2]\<rparr>)]\<rparr>) ''a''
     = Some (maybe_downcast_to_dtype \<lparr>dtype = Float64, vals = [Num 2]\<rparr> Int64)"
proof -
  let ?L = "\<lparr>index = [0::nat], data = [(''a'', \<lparr>dtype = Int64, vals = [Num 1]\<rparr>)]\<rparr>"
  let ?R = "\<lparr>index = [0::nat], data = [(''a'', \<lparr>dtype = Float64, vals = [Num 2]\<rparr>)]\<rparr>"
  let ?res = "\<lparr>index = [0::nat], data = [(''a'', \<lparr>dtype = Int64, vals = [Num 2]\<rparr>)]\<rparr>"
  have al: "align JOuter ?L ?R = Inr (?L, ?R)" by code_simp
  have e1: "\<not> (empty ?R \<and> length (index ?L) = length (index ?L))" by (simp add: empty_def)
  have e2: "\<not> (empty ?L \<and> length (index ?R) = length (index ?R))" by (simp add: empty_def)
  have cb: "combine ?L ?R take_right None True = Inr ?res" by code_simp
  have c1: "''a'' \<in> set (columns ?L)" and c2: "''a'' \<in> set (columns ?R)"
    by (simp_all add: columns_def)
  from combine_downcasts_to_left_dtype [OF al e1 e2 cb c1 c2] obtain x y arr where
    x: "getitem ?L (KLabel ''a'') = Inr (Column x)" and
    y: "getitem ?R (KLabel ''a'') = Inr (Column y)" and
    f: "take_right (x\<lparr>scol := (scol x)\<lparr>dtype := find_common_type [dtype (scol x), dtype (scol y)]\<rparr>\<rparr>)
                (y\<lparr>scol := (scol y)\<lparr>dtype := find_common_type [dtype (scol x), dtype (scol y)]\<rparr>\<rparr>)
         = Inr arr" and
    m: "map_of (data ?res) ''a'' = Some (maybe_downcast_to_dtype arr (dtype (scol x)))"
    by blast
  have gx: "getitem ?L (KLabel ''a'') =
            Inr (Column \<lparr>name = ''a'', sindex = [0], scol = \<lparr>dtype = Int64, vals = [Num 1]\<rparr>\<rparr>)"
    by code_simp
  have gy: "getitem ?R (KLabel ''a'') =
            Inr (Column \<lparr>name = ''a'', sindex = [0], scol = \<lparr>dtype = Float64, vals = [Num 2]\<rparr>\<rparr>)"
    by code_simp
  from x gx have xe: "x = \<lparr>name = ''a'', sindex = [0], scol = \<lparr>dtype = Int64, vals = [Num 1]\<rparr>\<rparr>"
    by simp
  from y gy have ye: "y = \<lparr>name = ''a'', sindex = [0], scol = \<lparr>dtype = Float64, vals = [Num 2]\<rparr>\<rparr>"
    by simp
  have "arr = \<lparr>dtype = Float64, vals = [Num 2]\<rparr>"
    using f unfolding xe ye
    by (simp add: take_right_def find_common_type_def common2_def is_numeric_def)
  with m xe have "map_of (data ?res) ''a'' =
                  Some (maybe_downcast_to_dtype \<lparr>dtype = Float64, vals = [Num 2]\<rparr> Int64)"
    by simp
  with al cb show ?thesis by blast
qed

text \<open>
  The claim as stated downcasts to the narrower of the two input types. With a float
  column on the left and an integer column on the right, the narrower type is the
  integer type and the result \<open>[2]\<close> would fit it, yet the result column stays a float
  column: the downcast goes to the left column's dtype.
\<close>

theorem combine_downcast_not_to_narrower_counterexample:
  "combine \<lparr>index = [0::nat], data = [(''a'', \<lparr>dtype = Float64, vals = [Num 1]\<rparr>)]\<rparr>
           \<lparr>index = [0::nat], data = [(''a'', \<lparr>dtype = Int64, vals = [Num 2]\<rparr>)]\<rparr>
           take_right None True
     = Inr \<lparr>index = [0::nat], data = [(''a'', \<lparr>dtype = Float64, vals = [Num 2]\<rparr>)]\<rparr> \<and>
   narrower Float64 Int64 = Int64 \<and>
   maybe_downcast_to_dtype \<lparr>dtype = Float64, vals = [Num 2]\<rparr> (narrower Float64 Int64)
     = \<lparr>dtype = Int64, vals = [Num 2]\<rparr>"
  by code_simp


lemma count_one_unique:
  "count_list (map fst xs) k = 1 \<Longrightarrow> (k, a) \<in> set xs \<Longrightarrow> (k, b) \<in> set xs \<Longrightarrow> a = b"
proof (induction xs)
  case Nil
  then show ?case by simp
next
  case (Cons x xs)
  show ?case
  proof (cases "fst x = k")
    case True
    with Cons.prems(1) have "count_list (map fst xs) k = 0" by simp
    then have "k \<notin> fst ` set xs" by (simp add: count_list_0_iff)
    then have "(k, a) \<notin> set xs" "(k, b) \<notin> set xs" by force+
    with Cons.prems(2,3) show ?thesis by auto
  next
    case False
    with Cons show ?thesis by auto
  qed
qed

lemma getitem_column_lookup:
  assumes "getitem f (KLabel c) = Inr (Column s)"
  shows "map_of (data f) c = Some (scol s)"
proof -
  consider "count_list (columns f) c = 0" | "count_list (columns f) c = 1"
    | "1 < count_list (columns f) c"
    by linarith
  then show ?thesis
  proof cases
    case 1
    then have "c \<notin> set (columns f)" by (simp add: count_list_0_iff)
    moreover from 1 have "positions (columns f) c = []"
      using length_positions [of "columns f" c] by simp
    ultimately have "getitem f (KLabel c) = Inl KeyError"
      by (simp add: getitem_def get_loc_def)
    with assms show ?thesis by simp
  next
    case 2
    from getitem_count_one [OF 2] obtain col where
      col: "(c, col) \<in> set (data f)"
        "getitem f (KLabel c) = Inr (Column \<lparr>name = c, sindex = index f, scol = col\<rparr>)"
      by blast
    with assms have s: "scol s = col" by auto
    from col(1) have "c \<in> set (columns f)" by (force simp: columns_def)
    then obtain col' where col': "map_of (data f) c = Some col'"
      using lookup_in_columns by metis
    then have "(c, col') \<in> set (data f)" by (rule map_of_SomeD)
    with col(1) 2 have "col' = col"
      using count_one_unique [of "data f" c col' col] by (simp add: columns_def)
    with col' s show ?thesis by simp
  next
    case 3
    from getitem_count_many [OF 3] assms show ?thesis by simp
  qed
qed

lemma np_all_isna: "np_all (map isna xs) \<Longrightarrow> xs = replicate (length xs) NA"
  by (induction xs) (auto simp: np_all_def isna_def)

lemma get_indexer_Nil: "get_indexer [] t = replicate (length t) (-1)"
  by (induction t) (auto simp: get_indexer_def)

lemma take_fill_missing: "take_fill xs (replicate n (-1)) = replicate n NA"
  by (simp add: take_fill_def)

lemma align_empty_left_all_na:
  assumes "empty L" "wf_frame L" "align pol L R = Inr (this, oth)"
    "map_of (data this) c = Some x"
  shows "vals x = replicate (length (index this)) NA"
proof -
  let ?rows = "join_index pol (index L) (index R)"
  let ?cols = "join_index pol (columns L) (columns R)"
  let ?M = "reindex_rows_with L ?rows (reindex_indexer (index L) ?rows)"
  have th_eq: "this = reindex_columns_with ?M ?cols (reindex_indexer (columns L) ?cols)"
    using align_result(1) [OF assms(3)] by (simp add: apply_plan_def)
  have iM: "index ?M = ?rows"
    by (rule reindex_rows_with_index) (simp add: reindex_indexer_def)
  have ithis: "index this = ?rows"
    using align_props(1) [OF assms(3)] .
  have M: "vals col = replicate (length ?rows) NA" if "(k, col) \<in> set (data ?M)" for k col
  proof (cases "data L = []")
    case True
    then have "data ?M = []"
      by (simp add: reindex_rows_with_def reindex_indexer_def)
    with that show ?thesis by simp
  next
    case False
    with assms(1) have e: "index L = []" by (simp add: empty_def)
    show ?thesis
    proof (cases "?rows = []")
      case True
      then have "?M = L" using e by (simp add: reindex_rows_with_def reindex_indexer_def)
      with that assms(2) e True show ?thesis
        by (auto simp: wf_frame_def list_all_iff)
    next
      case ne: False
      then have "data ?M = map (\<lambda>(c, col). (c, take_col col (replicate (length ?rows) (-1)))) (data L)"
        using e by (simp add: reindex_rows_with_def reindex_indexer_def get_indexer_Nil)
      with that show ?thesis
        by (auto simp: take_col_def take_fill_missing)
    qed
  qed
  have T: "vals col = replicate (length ?rows) NA" if "(k, col) \<in> set (data this)" for k col
  proof (cases "reindex_indexer (columns L) ?cols")
    case None
    then have "this = ?M" using th_eq by (simp add: reindex_columns_with_def)
    with that M show ?thesis by blast
  next
    case (Some ixs)
    have el: "vals (if 0 \<le> i \<and> nat i < length (data ?M) then snd (data ?M ! nat i)
                    else na_column (length (index ?M))) = replicate (length ?rows) NA" for i :: int
    proof (cases "0 \<le> i \<and> nat i < length (data ?M)")
      case True
      then have "data ?M ! nat i \<in> set (data ?M)" by simp
      then have "vals (snd (data ?M ! nat i)) = replicate (length ?rows) NA"
        using M [of "fst (data ?M ! nat i)" "snd (data ?M ! nat i)"] by simp
      with True show ?thesis by simp
    next
      case False
      then show ?thesis using iM by (auto simp: na_column_def)
    qed
    have "data this = map (\<lambda>(c, i). (c, if 0 \<le> i \<and> nat i < length (data ?M)
                                          then snd (data ?M ! nat i)
                                          else na_column (length (index ?M))))
                          (zip ?cols ixs)"
      using th_eq Some by (simp add: reindex_columns_with_def)
    with that obtain c' i where "col = (if 0 \<le> i \<and> nat i < length (data ?M)
                                          then snd (data ?M ! nat i)
                                          else na_column (length (index ?M)))"
      by auto
    with el [of i] show ?thesis by simp
  qed
  from assms(4) have mem: "(c, x) \<in> set (data this)" by (rule map_of_SomeD)
  from T [OF mem] ithis show ?thesis by simp
qed


lemma combine_traced_unfold:
  assumes "align JOuter L R = Inr (this, oth)"
  shows "combine_traced L R func fv ow =
     (if empty oth \<and> length (index this) = length (index L) then Inr (L, [])
      else if empty L \<and> length (index oth) = length (index R) then Inr (oth, [])
      else (case combine_loop (combine_column L this oth func fv ow) (columns this) Map.empty [] of
              Inl e \<Rightarrow> Inl e
            | Inr (result, calls) \<Rightarrow>
                (case frame_from_dict result (index this) (columns this) of
                   Inl e \<Rightarrow> Inl e
                 | Inr r \<Rightarrow> Inr (r, calls))))"
proof -
  have cols: "columns oth = columns this"
    using align_props(3,4) [OF assms] by simp
  show ?thesis
    by (auto simp: combine_traced_def assms Let_def cols union_idx_same)
qed

lemma combine_column_short_circuit:
  assumes "getitem this (KLabel c) = Inr (Column xs)" "getitem oth (KLabel c) = Inr (Column ys)"
    "np_all (map isna (vals (scol ys)))"
  shows "combine_column L this oth func fv False c = Inr (scol xs, False)"
  using assms by (simp add: combine_column_def Let_def)

text \<open>
  Claim C5. For a call \<^verbatim>\<open>combine(left, right, func, overwrite=False)\<close> on well-formed
  tables and a result column whose right-side values are all missing after alignment, the
  result column holds the values of the aligned left column, and \<open>func\<close> is not called
  for that column. This covers the column loop and both empty-table shortcuts.
\<close>

theorem combine_keeps_left_when_right_missing:
  assumes wfL: "wf_frame L" and wfR: "wf_frame R"
    and al: "align JOuter L R = Inr (this, oth)"
    and tr: "combine_traced L R func fv False = Inr (res, calls)"
    and cres: "c \<in> set (columns res)"
    and y: "map_of (data oth) c = Some y"
    and na: "np_all (map isna (vals y))"
  shows "\<exists>x r. map_of (data this) c = Some x \<and> map_of (data res) c = Some r \<and>
               vals r = vals x \<and> c \<notin> set calls"
proof -
  note p = align_props [OF al]
  have wft: "wf_frame this" and wfo: "wf_frame oth" using p(5,6) wfL wfR by simp_all
  have idx: "index oth = index this" and cols: "columns oth = columns this"
    using p(1-4) by simp_all
  from y have "(c, y) \<in> set (data oth)" by (rule map_of_SomeD)
  then have co: "c \<in> set (columns oth)" by (force simp: columns_def)
  then have cin: "c \<in> set (columns this)" using cols by simp
  then obtain x where x: "map_of (data this) c = Some x"
    using lookup_in_columns by metis
  have lx: "length (vals x) = length (index this)" using wf_frame_lookup [OF wft x] .
  have ly: "length (vals y) = length (index this)" using wf_frame_lookup [OF wfo y] idx by simp
  note ct = combine_traced_unfold [OF al, of func fv False]
  consider (e1) "empty oth \<and> length (index this) = length (index L)"
    | (e2) "\<not> (empty oth \<and> length (index this) = length (index L))"
           "empty L \<and> length (index oth) = length (index R)"
    | (loop) "\<not> (empty oth \<and> length (index this) = length (index L))"
             "\<not> (empty L \<and> length (index oth) = length (index R))"
    by blast
  then show ?thesis
  proof cases
    case e1
    with tr ct have res: "res = L" and calls: "calls = []" by simp_all
    from y have "data oth \<noteq> []" by auto
    with e1 have "index oth = []" by (simp add: empty_def)
    with idx e1 have i0: "index this = []" "index L = []" by simp_all
    from cres res obtain r where r: "map_of (data L) c = Some r"
      using lookup_in_columns by metis
    have "vals r = []" using wf_frame_lookup [OF wfL r] i0 by simp
    moreover have "vals x = []" using lx i0 by simp
    ultimately show ?thesis using x r res calls by simp
  next
    case e2
    with tr ct have res: "res = oth" and calls: "calls = []" by simp_all
    from e2(2) have eL: "empty L" by simp
    have "vals x = replicate (length (index this)) NA"
      using align_empty_left_all_na [OF eL wfL al x] .
    moreover have "vals y = replicate (length (index this)) NA"
      using np_all_isna [OF na] ly by simp
    ultimately show ?thesis using x y res calls by simp
  next
    case loop
    from combine_traced_loop [OF al loop tr] obtain result where
      lp: "combine_loop (combine_column L this oth func fv False) (columns this) Map.empty []
             = Inr (result, calls)"
      and fr: "frame_from_dict result (index this) (columns this) = Inr res"
      by blast
    note lr = combine_loop_result [OF lp]
    from lr cin obtain v b where
      st: "combine_column L this oth func fv False c = Inr (v, b)" and rc: "result c = Some v"
      by blast
    from combine_column_needs_columns [OF st] obtain xs ys where
      gx: "getitem this (KLabel c) = Inr (Column xs)" and
      gy: "getitem oth (KLabel c) = Inr (Column ys)"
      by blast
    have sx: "scol xs = x" using getitem_column_lookup [OF gx] x by simp
    have sy: "scol ys = y" using getitem_column_lookup [OF gy] y by simp
    have sc: "combine_column L this oth func fv False c = Inr (x, False)"
      using combine_column_short_circuit [OF gx gy] na sx sy by simp
    with st have v: "v = x" by simp
    have m: "map_of (data res) c = Some x"
      using frame_from_dict_result(3) [OF fr cin] rc v by simp
    have "c \<notin> set calls"
      using lr sc by auto
    with x m show ?thesis by simp
  qed
qed

theorem combine_keeps_left_when_right_missing_witness:
  "wf_frame \<lparr>index = [0::nat, 1], data = [(''a'', \<lparr>dtype = Int64, vals = [Num 1, Num 2]\<rparr>),
                                          (''b'', \<lparr>dtype = Int64, vals = [Num 3, Num 4]\<rparr>)]\<rparr> \<and>
   wf_frame \<lparr>index = [0::nat, 1], data = [(''a'', \<lparr>dtype = Float64, vals = [NA, NA]\<rparr>),
                                          (''b'', \<lparr>dtype = Int64, vals = [Num 5, Num 6]\<rparr>)]\<rparr> \<and>
   combine_traced
     \<lparr>index = [0::nat, 1], data = [(''a'', \<lparr>dtype = Int64, vals = [Num 1, Num 2]\<rparr>),
                                 (''b'', \<lparr>dtype = Int64, vals = [Num 3, Num 4]\<rparr>)]\<rparr>
     \<lparr>index = [0::nat, 1], data = [(''a'', \<lparr>dtype = Float64, vals = [NA, NA]\<rparr>),
                                 (''b'', \<lparr>dtype = Int64, vals = [Num 5, Num 6]\<rparr>)]\<rparr>
     take_right None False
   = Inr (\<lparr>index = [0::nat, 1], data = [(''a'', \<lparr>dtype = Int64, vals = [Num 1, Num 2]\<rparr>),
                                      (''b'', \<lparr>dtype = Int64, vals = [Num 5, Num 6]\<rparr>)]\<rparr>,
          [''b'']) \<and>
   ''a'' \<notin> set [''b'']"
proof -
  let ?L = "\<lparr>index = [0::nat, 1], data = [(''a'', \<lparr>dtype = Int64, vals = [Num 1, Num 2]\<rparr>),
                                          (''b'', \<lparr>dtype = Int64, vals = [Num 3, Num 4]\<rparr>)]\<rparr>"
  let ?R = "\<lparr>index = [0::nat, 1], data = [(''a'', \<lparr>dtype = Float64, vals = [NA, NA]\<rparr>),
                                          (''b'', \<lparr>dtype = Int64, vals = [Num 5, Num 6]\<rparr>)]\<rparr>"
  let ?res = "\<lparr>index = [0::nat, 1], data = [(''a'', \<lparr>dtype = Int64, vals = [Num 1, Num 2]\<rparr>),
                                      (''b'', \<lparr>dtype = Int64, vals = [Num 5, Num 6]\<rparr>)]\<rparr>"
  have wL: "wf_frame ?L" and wR: "wf_frame ?R" by (simp_all add: wf_frame_def)
  have al: "align JOuter ?L ?R = Inr (?L, ?R)" by code_simp
  have tr: "combine_traced ?L ?R take_right None False = Inr (?res, [''b''])" by code_simp
  have c: "''a'' \<in> set (columns ?res)" by (simp add: columns_def)
  have y: "map_of (data ?R) ''a'' = Some \<lparr>dtype = Float64, vals = [NA, NA]\<rparr>" by simp
  have na: "np_all (map isna (vals \<lparr>dtype = Float64, vals = [NA, NA]\<rparr>))"
    by (simp add: np_all_def isna_def)
  from combine_keeps_left_when_right_missing [OF wL wR al tr c y na]
  have "''a'' \<notin> set [''b'']" by blast
  with wL wR tr show ?thesis by blast
qed

end
